theory Spec2Isabelle
  imports Main
begin

section \<open>JavaScript values used by the session code\<close>

text \<open>
  The session state of \<open>App.tsx\<close> holds strings, string arrays and plain objects keyed by
  strings. A value that may be \<open>null\<close> or \<open>undefined\<close> is an \<open>option\<close>. Strings are
  \<open>char list\<close>.
\<close>

type_synonym File = string
type_synonym js_error = string

definition truthy :: "string option \<Rightarrow> bool" where
  \<comment> \<open>\<open>if (v)\<close> on a string, \<open>null\<close> or \<open>undefined\<close>: the empty string is falsy.\<close>
  "truthy v = (case v of None \<Rightarrow> False | Some s \<Rightarrow> s \<noteq> [])"

definition at :: "'a list \<Rightarrow> nat \<Rightarrow> 'a option" where
  \<comment> \<open>\<open>xs[i]\<close>: reading past the end of an array gives \<open>undefined\<close>.\<close>
  "at xs i = (if i < length xs then Some (xs ! i) else None)"

definition to_key :: "string option \<Rightarrow> string" where
  \<comment> \<open>A property key is a string: \<open>obj[undefined]\<close> reads and writes the key \<open>"undefined"\<close>.\<close>
  "to_key v = (case v of None \<Rightarrow> ''undefined'' | Some k \<Rightarrow> k)"

fun indexOf_from :: "nat \<Rightarrow> 'a list \<Rightarrow> 'a \<Rightarrow> nat option" where
  "indexOf_from n [] y = None"
| "indexOf_from n (x # xs) y = (if x = y then Some n else indexOf_from (Suc n) xs y)"

definition indexOf :: "string list \<Rightarrow> string option \<Rightarrow> nat option" where
  \<comment> \<open>\<open>xs.indexOf(v)\<close> with strict equality; \<open>None\<close> is the result \<open>-1\<close>. The value
      \<open>undefined\<close> equals no string.\<close>
  "indexOf xs v = (case v of None \<Rightarrow> None | Some y \<Rightarrow> indexOf_from 0 xs y)"

fun findIndex_from :: "nat \<Rightarrow> ('a \<Rightarrow> bool) \<Rightarrow> 'a list \<Rightarrow> nat option" where
  "findIndex_from n P [] = None"
| "findIndex_from n P (x # xs) = (if P x then Some n else findIndex_from (Suc n) P xs)"

definition findIndex :: "('a \<Rightarrow> bool) \<Rightarrow> 'a list \<Rightarrow> nat option" where
  \<comment> \<open>\<open>xs.findIndex(P)\<close>; \<open>None\<close> is the result \<open>-1\<close>.\<close>
  "findIndex P xs = findIndex_from 0 P xs"

definition js_mod :: "nat \<Rightarrow> nat \<Rightarrow> nat option" where
  \<comment> \<open>\<open>a % b\<close> on non-negative integers; \<open>None\<close> is \<open>NaN\<close> (\<open>b = 0\<close>).\<close>
  "js_mod a b = (if b = 0 then None else Some (a mod b))"

text \<open>
  \<open>String.prototype.toLowerCase\<close> and \<open>String.prototype.trim\<close> belong to the language, not
  to the program, and work on all of Unicode. The handler that calls them takes them as
  parameters, and a theorem assumes of them only what it states.
\<close>

record string_methods =
  toLowerCase :: "string \<Rightarrow> string"
  trim :: "string \<Rightarrow> string"

subsection \<open>Plain objects as ordered property lists\<close>

text \<open>
  \<open>poseImages\<close> is a \<open>Record<string, string>\<close>. \<open>Object.keys\<close> and \<open>Object.values\<close> list
  the properties in the order of the language: keys that are array indices (canonical
  decimal numerals below \<open>2^32 - 1\<close>) first, in ascending numeric order, then every other
  key in the order of its creation. The property list is kept in that order.
  Only own properties are modelled: a pose instruction is taken not to be the name of a
  member of \<open>Object.prototype\<close> (such as \<open>constructor\<close> or \<open>__proto__\<close>), for which
  a read or a write of \<open>poseImages[k]\<close> would go through the prototype.
\<close>

type_synonym props = "(string \<times> string) list"

definition is_digit :: "char \<Rightarrow> bool" where
  "is_digit c = (48 \<le> (of_char c :: nat) \<and> (of_char c :: nat) \<le> 57)"

definition digits_value :: "string \<Rightarrow> nat" where
  "digits_value k = foldl (\<lambda>a c. 10 * a + ((of_char c :: nat) - 48)) 0 k"

definition array_index :: "string \<Rightarrow> nat option" where
  "array_index k =
     (if k = [] \<or> \<not> list_all is_digit k \<or> (1 < length k \<and> hd k = CHR ''0'') then None
      else if digits_value k < 4294967295 then Some (digits_value k) else None)"

definition object_keys :: "props \<Rightarrow> string list" where
  "object_keys ps = map fst ps"

definition object_values :: "props \<Rightarrow> string list" where
  "object_values ps = map snd ps"

definition get_prop :: "props \<Rightarrow> string \<Rightarrow> string option" where
  \<comment> \<open>\<open>obj[k]\<close>\<close>
  "get_prop ps k = map_of ps k"

fun replace_prop :: "props \<Rightarrow> string \<Rightarrow> string \<Rightarrow> props" where
  "replace_prop [] k v = []"
| "replace_prop ((k', v') # ps) k v =
     (if k' = k then (k, v) # ps else (k', v') # replace_prop ps k v)"

fun insert_index_prop :: "nat \<Rightarrow> props \<Rightarrow> string \<Rightarrow> string \<Rightarrow> props" where
  "insert_index_prop n [] k v = [(k, v)]"
| "insert_index_prop n ((k', v') # ps) k v =
     (case array_index k' of
        Some m \<Rightarrow> if m < n then (k', v') # insert_index_prop n ps k v
                  else (k, v) # (k', v') # ps
      | None \<Rightarrow> (k, v) # (k', v') # ps)"

definition set_prop :: "props \<Rightarrow> string \<Rightarrow> string \<Rightarrow> props" where
  \<comment> \<open>\<open>obj[k] = v\<close>: an existing property keeps its place, a new one is created.\<close>
  "set_prop ps k v =
     (if k \<in> set (object_keys ps) then replace_prop ps k v
      else case array_index k of
             None \<Rightarrow> ps @ [(k, v)]
           | Some n \<Rightarrow> insert_index_prop n ps k v)"

section \<open>Data model (\<open>types.ts\<close>, \<open>wardrobe.ts\<close>)\<close>

record WardrobeItem =
  id' :: string
  name :: string
  url :: string

record OutfitLayer =
  garment :: "WardrobeItem option"
  poseImages :: props

definition defaultWardrobe :: "WardrobeItem list" where
  "defaultWardrobe =
    [\<lparr>id' = ''gemini-sweat'', name = ''Gemini Sweat'',
      url = ''https://raw.githubusercontent.com/ammaarreshi/app-images/refs/heads/main/gemini-sweat-2.png''\<rparr>,
     \<lparr>id' = ''gemini-tee'', name = ''Gemini Tee'',
      url = ''https://raw.githubusercontent.com/ammaarreshi/app-images/refs/heads/main/Gemini-tee.png''\<rparr>,
     \<lparr>id' = ''vto-backpack'', name = ''Leather Backpack'',
      url = ''https://storage.googleapis.com/gemini-95-icons/vto-backpack.png''\<rparr>,
     \<lparr>id' = ''vto-necklace'', name = ''Gold Necklace'',
      url = ''https://storage.googleapis.com/gemini-95-icons/vto-necklace.png''\<rparr>,
     \<lparr>id' = ''vto-watch'', name = ''Silver Watch'',
      url = ''https://storage.googleapis.com/gemini-95-icons/vto-watch.png''\<rparr>]"

definition DEFAULT_POSE_INSTRUCTIONS :: "string list" where
  "DEFAULT_POSE_INSTRUCTIONS =
    [''Full frontal view, hands on hips'',
     ''Slightly turned, 3/4 view'',
     ''Side profile view'',
     ''Jumping in the air, mid-action shot'',
     ''Walking towards camera'',
     ''Leaning against a wall'']"

section \<open>Session state (\<open>App.tsx\<close>)\<close>

text \<open>One field for each \<open>useState\<close> cell of the \<open>App\<close> component.\<close>

record app_state =
  modelImageUrl :: "string option"
  outfitHistory :: "OutfitLayer list"
  currentOutfitIndex :: nat
  isLoading :: bool
  loadingMessage :: string
  error :: "string option"
  currentPoseIndex :: nat
  poseInstructions :: "string list"
  isSheetCollapsed :: bool
  wardrobe :: "WardrobeItem list"

definition initial_state :: app_state where
  "initial_state =
    \<lparr>modelImageUrl = None, outfitHistory = [], currentOutfitIndex = 0, isLoading = False,
     loadingMessage = [], error = None, currentPoseIndex = 0,
     poseInstructions = DEFAULT_POSE_INSTRUCTIONS, isSheetCollapsed = False,
     wardrobe = defaultWardrobe\<rparr>"

definition displayImageUrl :: "app_state \<Rightarrow> string option" where
  "displayImageUrl s =
     (if length (outfitHistory s) = 0 then modelImageUrl s
      else case at (outfitHistory s) (currentOutfitIndex s) of
             None \<Rightarrow> modelImageUrl s
           | Some currentLayer \<Rightarrow>
               (let poseInstruction = at (poseInstructions s) (currentPoseIndex s)
                in case get_prop (poseImages currentLayer) (to_key poseInstruction) of
                     Some img \<Rightarrow> Some img
                   | None \<Rightarrow> at (object_values (poseImages currentLayer)) 0))"

definition availablePoseKeys :: "app_state \<Rightarrow> string list" where
  "availablePoseKeys s =
     (if length (outfitHistory s) = 0 then []
      else case at (outfitHistory s) (currentOutfitIndex s) of
             None \<Rightarrow> []
           | Some currentLayer \<Rightarrow> object_keys (poseImages currentLayer))"

section \<open>The image generation gateway (\<open>services/geminiService.ts\<close>)\<close>

text \<open>
  The four requests the session code awaits. Each resolves to an image (a data URL) or
  rejects with an error; what the remote model answers is outside the program, so every
  operation below takes the answer as a function of the request.
\<close>

datatype gateway_call =
    GenerateVirtualTryOnImage string File
  | GeneratePoseVariation string "string option"
  | ChangeBackgroundImage string string
  | ChangeBackgroundImageWithImage string File

type_synonym gateway = "gateway_call \<Rightarrow> js_error + string"

definition dataUrl :: "string \<Rightarrow> string \<Rightarrow> string" where
  \<comment> \<open>what \<open>handleApiResponse\<close> returns for the first image part of a response\<close>
  "dataUrl mimeType data = ''data:'' @ mimeType @ '';base64,'' @ data"

text \<open>
  \<open>getFriendlyErrorMessage\<close> lives in \<open>lib/utils.ts\<close>; the handlers take it as the
  parameter \<open>fmt\<close>.
\<close>

type_synonym formatter = "js_error \<Rightarrow> string \<Rightarrow> string"

section \<open>Session controller (\<open>App.tsx\<close>)\<close>

text \<open>
  An asynchronous handler runs in two parts. The part before \<open>await\<close> reads the values of
  the render it was created in and either returns, throws, or issues one gateway request.
  The part after \<open>await\<close> still reads the values captured before it (its closure), while
  the functional updates \<open>setX(prev => ...)\<close> act on the state of the moment. The captured
  values are kept in a \<open>pending\<close> value. A handler is taken to be created from the state
  it is called in (a render lies between two user events).

  \<open>Done s\<close>: the handler returned without a request, leaving \<open>s\<close>. \<open>Threw\<close>: it read
  \<open>poseImages\<close> of a layer that does not exist, a \<open>TypeError\<close> before its first update.
  \<open>Await s c p\<close>: it made the updates that give \<open>s\<close> and waits for the answer to \<open>c\<close>.
\<close>

datatype pending =
    PendingGarment nat "string option" WardrobeItem
  | PendingPose nat "string option" nat
  | PendingCustomPose nat string nat
  | PendingBackground nat "string option"

datatype step =
    Done app_state
  | Threw
  | Await app_state gateway_call pending

definition finish :: "app_state \<Rightarrow> app_state" where
  \<comment> \<open>\<open>finally { setIsLoading(false); setLoadingMessage(''); }\<close>\<close>
  "finish s = s\<lparr>isLoading := False, loadingMessage := []\<rparr>"

definition handleModelFinalized :: "app_state \<Rightarrow> string \<Rightarrow> app_state" where
  "handleModelFinalized s u =
     s\<lparr>modelImageUrl := Some u,
       outfitHistory :=
         [\<lparr>garment = None, poseImages = set_prop [] (to_key (at (poseInstructions s) 0)) u\<rparr>],
       currentOutfitIndex := 0\<rparr>"

definition handleStartOver :: "app_state \<Rightarrow> app_state" where
  "handleStartOver s =
     s\<lparr>modelImageUrl := None, outfitHistory := [], currentOutfitIndex := 0,
       isLoading := False, loadingMessage := [], error := None, currentPoseIndex := 0,
       poseInstructions := DEFAULT_POSE_INSTRUCTIONS, isSheetCollapsed := False,
       wardrobe := defaultWardrobe\<rparr>"

subsection \<open>\<open>handleGarmentSelect\<close>\<close>

definition same_garment :: "OutfitLayer \<Rightarrow> WardrobeItem \<Rightarrow> bool" where
  \<comment> \<open>\<open>nextLayer.garment?.id === garmentInfo.id\<close>\<close>
  "same_garment nextLayer garmentInfo =
     (case garment nextLayer of None \<Rightarrow> False | Some g \<Rightarrow> id' g = id' garmentInfo)"

definition handleGarmentSelect_begin :: "app_state \<Rightarrow> File \<Rightarrow> WardrobeItem \<Rightarrow> step" where
  "handleGarmentSelect_begin s garmentFile garmentInfo =
     (if \<not> truthy (displayImageUrl s) \<or> isLoading s then Done s
      else if (case at (outfitHistory s) (currentOutfitIndex s + 1) of
                 None \<Rightarrow> False
               | Some nextLayer \<Rightarrow> same_garment nextLayer garmentInfo)
      then Done (s\<lparr>currentOutfitIndex := currentOutfitIndex s + 1, currentPoseIndex := 0\<rparr>)
      else Await (s\<lparr>error := None, isLoading := True,
                     loadingMessage := ''Adding '' @ name garmentInfo @ ''...''\<rparr>)
                 (GenerateVirtualTryOnImage (the (displayImageUrl s)) garmentFile)
                 (PendingGarment (currentOutfitIndex s)
                    (at (poseInstructions s) (currentPoseIndex s)) garmentInfo))"

definition addToWardrobe :: "WardrobeItem list \<Rightarrow> WardrobeItem \<Rightarrow> WardrobeItem list" where
  \<comment> \<open>the updater passed to \<open>setWardrobe\<close>\<close>
  "addToWardrobe prev garmentInfo =
     (if find (\<lambda>item. id' item = id' garmentInfo) prev \<noteq> None then prev
      else prev @ [garmentInfo])"

definition handleGarmentSelect_settle ::
  "formatter \<Rightarrow> nat \<Rightarrow> string option \<Rightarrow> WardrobeItem \<Rightarrow> js_error + string \<Rightarrow> app_state \<Rightarrow> app_state"
where
  "handleGarmentSelect_settle fmt capturedIndex currentPoseInstruction garmentInfo r s =
     (case r of
        Inr newImageUrl \<Rightarrow>
          (let newLayer = \<lparr>garment = Some garmentInfo,
                           poseImages = set_prop [] (to_key currentPoseInstruction) newImageUrl\<rparr>;
               s1 = s\<lparr>outfitHistory := take (capturedIndex + 1) (outfitHistory s) @ [newLayer]\<rparr>;
               s2 = s1\<lparr>currentOutfitIndex := currentOutfitIndex s1 + 1\<rparr>;
               s3 = s2\<lparr>wardrobe := addToWardrobe (wardrobe s2) garmentInfo\<rparr>
           in finish s3)
      | Inl err \<Rightarrow> finish (s\<lparr>error := Some (fmt err ''Failed to apply garment'')\<rparr>))"

subsection \<open>\<open>handleRemoveLastGarment\<close>\<close>

definition handleRemoveLastGarment :: "app_state \<Rightarrow> app_state" where
  "handleRemoveLastGarment s =
     (if 0 < currentOutfitIndex s
      then s\<lparr>currentOutfitIndex := currentOutfitIndex s - 1, currentPoseIndex := 0\<rparr>
      else s)"

subsection \<open>\<open>handlePoseSelect\<close>\<close>

definition setPoseImage ::
  "nat \<Rightarrow> string \<Rightarrow> string \<Rightarrow> OutfitLayer list \<Rightarrow> OutfitLayer list option" where
  \<comment> \<open>The updater \<open>newHistory = [...prevHistory]; newHistory[k].poseImages[key] = img\<close>.
      \<open>None\<close>: there is no layer \<open>k\<close>, and reading \<open>poseImages\<close> of \<open>undefined\<close> throws
      inside the updater.\<close>
  "setPoseImage k key img prevHistory =
     (case at prevHistory k of
        None \<Rightarrow> None
      | Some updatedLayer \<Rightarrow>
          Some (prevHistory[k := updatedLayer\<lparr>poseImages :=
                  set_prop (poseImages updatedLayer) key img\<rparr>]))"

definition handlePoseSelect_begin :: "app_state \<Rightarrow> nat \<Rightarrow> step" where
  "handlePoseSelect_begin s newIndex =
     (if isLoading s \<or> length (outfitHistory s) = 0 \<or> newIndex = currentPoseIndex s then Done s
      else let poseInstruction = at (poseInstructions s) newIndex in
        case at (outfitHistory s) (currentOutfitIndex s) of
          None \<Rightarrow> Threw
        | Some currentLayer \<Rightarrow>
            if truthy (get_prop (poseImages currentLayer) (to_key poseInstruction))
            then Done (s\<lparr>currentPoseIndex := newIndex\<rparr>)
            else let baseImageForPoseChange = at (object_values (poseImages currentLayer)) 0 in
              if \<not> truthy baseImageForPoseChange then Done s
              else Await (s\<lparr>error := None, isLoading := True,
                             loadingMessage := ''Changing pose...'',
                             currentPoseIndex := newIndex\<rparr>)
                         (GeneratePoseVariation (the baseImageForPoseChange) poseInstruction)
                         (PendingPose (currentOutfitIndex s) poseInstruction
                            (currentPoseIndex s)))"

definition handlePoseSelect_settle ::
  "formatter \<Rightarrow> nat \<Rightarrow> string option \<Rightarrow> nat \<Rightarrow> js_error + string \<Rightarrow> app_state
     \<Rightarrow> app_state option"
where
  "handlePoseSelect_settle fmt capturedIndex poseInstruction prevPoseIndex r s =
     (case r of
        Inr newImageUrl \<Rightarrow>
          (case setPoseImage capturedIndex (to_key poseInstruction) newImageUrl (outfitHistory s) of
             None \<Rightarrow> None
           | Some newHistory \<Rightarrow> Some (finish (s\<lparr>outfitHistory := newHistory\<rparr>)))
      | Inl err \<Rightarrow>
          Some (finish (s\<lparr>error := Some (fmt err ''Failed to change pose''),
                           currentPoseIndex := prevPoseIndex\<rparr>)))"

subsection \<open>\<open>handleCustomPoseGenerate\<close>\<close>

definition handleCustomPoseGenerate_begin :: "string_methods \<Rightarrow> app_state \<Rightarrow> string \<Rightarrow> step"
where
  "handleCustomPoseGenerate_begin js s posePrompt =
     (if trim js posePrompt = [] \<or> isLoading s \<or> \<not> truthy (displayImageUrl s) then Done s
      else let trimmedPrompt = trim js posePrompt;
               existingIndex =
                 findIndex (\<lambda>p. toLowerCase js p = toLowerCase js trimmedPrompt)
                   (poseInstructions s)
        in case existingIndex of
             Some i \<Rightarrow> handlePoseSelect_begin s i
           | None \<Rightarrow>
              (case at (outfitHistory s) (currentOutfitIndex s) of
                 None \<Rightarrow> Threw
               | Some currentLayer \<Rightarrow>
                   let baseImageForPoseChange = at (object_values (poseImages currentLayer)) 0 in
                   if \<not> truthy baseImageForPoseChange then Done s
                   else Await (s\<lparr>error := None, isLoading := True,
                                  loadingMessage := ''Creating custom pose...'',
                                  poseInstructions := poseInstructions s @ [trimmedPrompt],
                                  currentPoseIndex := length (poseInstructions s)\<rparr>)
                              (GeneratePoseVariation (the baseImageForPoseChange)
                                 (Some trimmedPrompt))
                              (PendingCustomPose (currentOutfitIndex s) trimmedPrompt
                                 (currentPoseIndex s))))"

definition handleCustomPoseGenerate_settle ::
  "formatter \<Rightarrow> nat \<Rightarrow> string \<Rightarrow> nat \<Rightarrow> js_error + string \<Rightarrow> app_state \<Rightarrow> app_state option"
where
  "handleCustomPoseGenerate_settle fmt capturedIndex trimmedPrompt prevPoseIndex r s =
     (case r of
        Inr newImageUrl \<Rightarrow>
          (case setPoseImage capturedIndex trimmedPrompt newImageUrl (outfitHistory s) of
             None \<Rightarrow> None
           | Some newHistory \<Rightarrow> Some (finish (s\<lparr>outfitHistory := newHistory\<rparr>)))
      | Inl err \<Rightarrow>
          Some (finish (s\<lparr>error := Some (fmt err ''Failed to create custom pose''),
                           currentPoseIndex := prevPoseIndex,
                           poseInstructions :=
                             filter (\<lambda>p. p \<noteq> trimmedPrompt) (poseInstructions s)\<rparr>)))"

subsection \<open>\<open>handleBackgroundChange\<close> and \<open>handleBackgroundImageUpload\<close>\<close>

definition deepCopy :: "OutfitLayer list \<Rightarrow> OutfitLayer list" where
  \<comment> \<open>\<open>JSON.parse(JSON.stringify(prevHistory))\<close>: the layers hold strings and \<open>null\<close> only,
      and parsing creates the properties in the order they were written, so the copy
      equals the original.\<close>
  "deepCopy prevHistory =
     map (\<lambda>l. \<lparr>garment = garment l, poseImages = map (\<lambda>(k, v). (k, v)) (poseImages l)\<rparr>)
       prevHistory"

definition handleBackgroundChange_begin :: "app_state \<Rightarrow> string \<Rightarrow> step" where
  "handleBackgroundChange_begin s prompt =
     (if isLoading s \<or> \<not> truthy (displayImageUrl s) then Done s
      else Await (s\<lparr>error := None, isLoading := True,
                     loadingMessage := ''Changing background...''\<rparr>)
                 (ChangeBackgroundImage (the (displayImageUrl s)) prompt)
                 (PendingBackground (currentOutfitIndex s)
                    (at (poseInstructions s) (currentPoseIndex s))))"

definition handleBackgroundImageUpload_begin :: "app_state \<Rightarrow> File \<Rightarrow> step" where
  "handleBackgroundImageUpload_begin s file =
     (if isLoading s \<or> \<not> truthy (displayImageUrl s) then Done s
      else Await (s\<lparr>error := None, isLoading := True,
                     loadingMessage := ''Changing background...''\<rparr>)
                 (ChangeBackgroundImageWithImage (the (displayImageUrl s)) file)
                 (PendingBackground (currentOutfitIndex s)
                    (at (poseInstructions s) (currentPoseIndex s))))"

definition setBackgroundImage ::
  "nat \<Rightarrow> string option \<Rightarrow> string \<Rightarrow> OutfitLayer list \<Rightarrow> OutfitLayer list" where
  \<comment> \<open>the updater passed to \<open>setOutfitHistory\<close> by both background handlers\<close>
  "setBackgroundImage k currentPoseInstruction newImageUrl prevHistory =
     (let newHistory = deepCopy prevHistory in
      case at newHistory k of
        None \<Rightarrow> newHistory
      | Some currentLayer \<Rightarrow>
          if truthy currentPoseInstruction
          then newHistory[k := currentLayer\<lparr>poseImages :=
                 set_prop (poseImages currentLayer) (the currentPoseInstruction) newImageUrl\<rparr>]
          else newHistory)"

definition handleBackgroundChange_settle ::
  "formatter \<Rightarrow> nat \<Rightarrow> string option \<Rightarrow> js_error + string \<Rightarrow> app_state \<Rightarrow> app_state" where
  "handleBackgroundChange_settle fmt capturedIndex currentPoseInstruction r s =
     (case r of
        Inr newImageUrl \<Rightarrow>
          finish (s\<lparr>outfitHistory :=
            setBackgroundImage capturedIndex currentPoseInstruction newImageUrl (outfitHistory s)\<rparr>)
      | Inl err \<Rightarrow> finish (s\<lparr>error := Some (fmt err ''Failed to change background'')\<rparr>))"

subsection \<open>Running a handler to its end\<close>

text \<open>
  \<open>Settled s cs\<close>: the handler has returned and every queued update is applied, leaving the
  state \<open>s\<close> after the gateway requests \<open>cs\<close>. \<open>Uncaught\<close>: the handler threw before its first
  update (a rejected promise, the state as before). \<open>RenderError\<close>: an updater threw.
\<close>

datatype outcome =
    Settled app_state "gateway_call list"
  | Uncaught
  | RenderError

definition resume :: "formatter \<Rightarrow> pending \<Rightarrow> js_error + string \<Rightarrow> app_state \<Rightarrow> app_state option"
where
  "resume fmt p r s =
     (case p of
        PendingGarment k instr info \<Rightarrow> Some (handleGarmentSelect_settle fmt k instr info r s)
      | PendingPose k instr prev \<Rightarrow> handlePoseSelect_settle fmt k instr prev r s
      | PendingCustomPose k text prev \<Rightarrow> handleCustomPoseGenerate_settle fmt k text prev r s
      | PendingBackground k instr \<Rightarrow> Some (handleBackgroundChange_settle fmt k instr r s))"

definition run :: "formatter \<Rightarrow> gateway \<Rightarrow> step \<Rightarrow> outcome" where
  \<comment> \<open>The uninterrupted run: the answer to the request is the next thing that happens.
      Runs in which something else happens first are those of \<open>drive\<close> below.\<close>
  "run fmt gw st =
     (case st of
        Done s \<Rightarrow> Settled s []
      | Threw \<Rightarrow> Uncaught
      | Await s c p \<Rightarrow>
          (case resume fmt p (gw c) s of
             None \<Rightarrow> RenderError
           | Some s' \<Rightarrow> Settled s' [c]))"

definition handleGarmentSelect ::
  "formatter \<Rightarrow> gateway \<Rightarrow> app_state \<Rightarrow> File \<Rightarrow> WardrobeItem \<Rightarrow> outcome" where
  "handleGarmentSelect fmt gw s garmentFile garmentInfo =
     run fmt gw (handleGarmentSelect_begin s garmentFile garmentInfo)"

definition handlePoseSelect :: "formatter \<Rightarrow> gateway \<Rightarrow> app_state \<Rightarrow> nat \<Rightarrow> outcome" where
  "handlePoseSelect fmt gw s newIndex = run fmt gw (handlePoseSelect_begin s newIndex)"

definition handleCustomPoseGenerate ::
  "formatter \<Rightarrow> string_methods \<Rightarrow> gateway \<Rightarrow> app_state \<Rightarrow> string \<Rightarrow> outcome" where
  "handleCustomPoseGenerate fmt js gw s posePrompt =
     run fmt gw (handleCustomPoseGenerate_begin js s posePrompt)"

definition handleBackgroundChange ::
  "formatter \<Rightarrow> gateway \<Rightarrow> app_state \<Rightarrow> string \<Rightarrow> outcome" where
  "handleBackgroundChange fmt gw s prompt = run fmt gw (handleBackgroundChange_begin s prompt)"

definition handleBackgroundImageUpload ::
  "formatter \<Rightarrow> gateway \<Rightarrow> app_state \<Rightarrow> File \<Rightarrow> outcome" where
  "handleBackgroundImageUpload fmt gw s file =
     run fmt gw (handleBackgroundImageUpload_begin s file)"

section \<open>Pose navigation (\<open>components/Canvas.tsx\<close>)\<close>

text \<open>
  The component receives the session values as props; a primed name is the prop of that
  name. \<open>NoSelect\<close>: \<open>onSelectPose\<close> is not called. \<open>SelectNaN\<close>: it is called with
  \<open>NaN\<close> (an empty catalog).
\<close>

datatype nav = NoSelect | SelectPose nat | SelectNaN

definition nextInMasterList :: "string list \<Rightarrow> nat \<Rightarrow> nav" where
  \<comment> \<open>\<open>onSelectPose((currentPoseIndex + 1) % poseInstructions.length)\<close>\<close>
  "nextInMasterList poseInstructions' currentPoseIndex' =
     (case js_mod (currentPoseIndex' + 1) (length poseInstructions') of
        None \<Rightarrow> SelectNaN
      | Some newGlobalPoseIndex \<Rightarrow> SelectPose newGlobalPoseIndex)"

definition handleNextPose :: "bool \<Rightarrow> string list \<Rightarrow> nat \<Rightarrow> string list \<Rightarrow> nav" where
  "handleNextPose isLoading' poseInstructions' currentPoseIndex' availablePoseKeys' =
     (if isLoading' then NoSelect
      else let currentPoseInstruction = at poseInstructions' currentPoseIndex';
               currentIndexInAvailable = indexOf availablePoseKeys' currentPoseInstruction
        in case currentIndexInAvailable of
             None \<Rightarrow> nextInMasterList poseInstructions' currentPoseIndex'
           | Some i \<Rightarrow>
               if length availablePoseKeys' = 0
               then nextInMasterList poseInstructions' currentPoseIndex'
               else let nextIndexInAvailable = i + 1 in
                 if nextIndexInAvailable < length availablePoseKeys'
                 then (case indexOf poseInstructions'
                              (at availablePoseKeys' nextIndexInAvailable) of
                         None \<Rightarrow> NoSelect
                       | Some newGlobalPoseIndex \<Rightarrow> SelectPose newGlobalPoseIndex)
                 else nextInMasterList poseInstructions' currentPoseIndex')"

section \<open>Sessions\<close>

datatype event =
    ModelFinalized string
  | StartOver
  | GarmentSelect File WardrobeItem
  | RemoveLastGarment
  | PoseSelect nat
  | CustomPoseGenerate string
  | BackgroundChange string
  | BackgroundImageUpload File

subsection \<open>Uninterrupted sessions\<close>

text \<open>
  A sequence of user events, each handled to its end before the next: every request is
  answered before the next event. A handler that throws leaves the state as it was; an
  updater that throws ends the session.
\<close>

fun perform :: "formatter \<Rightarrow> string_methods \<Rightarrow> gateway \<Rightarrow> app_state \<Rightarrow> event \<Rightarrow> outcome" where
  "perform fmt js gw s (ModelFinalized u) = Settled (handleModelFinalized s u) []"
| "perform fmt js gw s StartOver = Settled (handleStartOver s) []"
| "perform fmt js gw s (GarmentSelect garmentFile garmentInfo) =
     handleGarmentSelect fmt gw s garmentFile garmentInfo"
| "perform fmt js gw s RemoveLastGarment = Settled (handleRemoveLastGarment s) []"
| "perform fmt js gw s (PoseSelect newIndex) = handlePoseSelect fmt gw s newIndex"
| "perform fmt js gw s (CustomPoseGenerate posePrompt) =
     handleCustomPoseGenerate fmt js gw s posePrompt"
| "perform fmt js gw s (BackgroundChange prompt) = handleBackgroundChange fmt gw s prompt"
| "perform fmt js gw s (BackgroundImageUpload file) = handleBackgroundImageUpload fmt gw s file"

fun session ::
  "formatter \<Rightarrow> string_methods \<Rightarrow> gateway \<Rightarrow> app_state \<Rightarrow> event list \<Rightarrow> app_state option" where
  "session fmt js gw s [] = Some s"
| "session fmt js gw s (e # es) =
     (case perform fmt js gw s e of
        Settled t cs \<Rightarrow> session fmt js gw t es
      | Uncaught \<Rightarrow> session fmt js gw s es
      | RenderError \<Rightarrow> None)"

text \<open>
  Garment selections made in turn: each selection is made in the render that follows the
  answer to the one before, reaches the gateway and is answered with an image; \<open>None\<close> when
  one of them is not. Selections that overlap are runs of \<open>drive\<close>, not of this function.
\<close>

fun applyGarments ::
  "formatter \<Rightarrow> gateway \<Rightarrow> app_state \<Rightarrow> (File \<times> WardrobeItem) list \<Rightarrow> app_state option" where
  "applyGarments fmt gw s [] = Some s"
| "applyGarments fmt gw s ((garmentFile, garmentInfo) # rest) =
     (case handleGarmentSelect fmt gw s garmentFile garmentInfo of
        Settled t cs \<Rightarrow>
          (case cs of
             [c] \<Rightarrow> (case gw c of Inr img \<Rightarrow> applyGarments fmt gw t rest | Inl err \<Rightarrow> None)
           | _ \<Rightarrow> None)
      | _ \<Rightarrow> None)"

subsection \<open>The wardrobe panel (\<open>components/WardrobeModal.tsx\<close>)\<close>

text \<open>
  \<open>handleGarmentClick\<close> tests the \<open>isLoading\<close> and \<open>activeGarmentIds\<close> props of its render,
  awaits \<open>urlToFile\<close>, and then calls the \<open>onGarmentSelect\<close> prop of that same render: the
  \<open>handleGarmentSelect\<close> whose closure holds the values of the render of the click, while its
  updates act on the state of the moment. \<open>handleGarmentSelect_call c s\<close> is that call, with
  the closure values \<open>c\<close> and the state \<open>s\<close>; \<open>handleGarmentSelect_begin s\<close> is the call made
  in the render of \<open>s\<close> itself.
\<close>

definition activeOutfitLayers :: "app_state \<Rightarrow> OutfitLayer list" where
  "activeOutfitLayers s = take (currentOutfitIndex s + 1) (outfitHistory s)"

definition activeGarmentIds :: "app_state \<Rightarrow> string list" where
  \<comment> \<open>\<open>activeOutfitLayers.map(layer => layer.garment?.id).filter(Boolean)\<close>\<close>
  "activeGarmentIds s =
     map the (filter truthy (map (\<lambda>layer. map_option id' (garment layer)) (activeOutfitLayers s)))"

definition handleGarmentSelect_call ::
  "app_state \<Rightarrow> app_state \<Rightarrow> File \<Rightarrow> WardrobeItem \<Rightarrow> step" where
  "handleGarmentSelect_call c s garmentFile garmentInfo =
     (if \<not> truthy (displayImageUrl c) \<or> isLoading c then Done s
      else if (case at (outfitHistory c) (currentOutfitIndex c + 1) of
                 None \<Rightarrow> False
               | Some nextLayer \<Rightarrow> same_garment nextLayer garmentInfo)
      then Done (s\<lparr>currentOutfitIndex := currentOutfitIndex s + 1, currentPoseIndex := 0\<rparr>)
      else Await (s\<lparr>error := None, isLoading := True,
                     loadingMessage := ''Adding '' @ name garmentInfo @ ''...''\<rparr>)
                 (GenerateVirtualTryOnImage (the (displayImageUrl c)) garmentFile)
                 (PendingGarment (currentOutfitIndex c)
                    (at (poseInstructions c) (currentPoseIndex c)) garmentInfo))"

subsection \<open>Sessions in which events and answers interleave\<close>

text \<open>
  Between a request and its answer the page stays live. A \<open>world\<close> is the session state,
  the error slot of the wardrobe panel (a \<open>useState\<close> cell of its own) and the promises not
  yet settled: gateway requests with the values their handler captured, and \<open>urlToFile\<close>
  fetches with the render of the click that started them. An action is a user event handled
  by the handler of the current render, a click on a wardrobe item, or the settling of the
  promise at a position of the list, by an image or a file (\<open>Inr\<close>) or by an error
  (\<open>Inl\<close>, for \<open>urlToFile\<close> the message of the error it throws). \<open>None\<close>: an updater threw.
\<close>

datatype task =
    Fetch app_state WardrobeItem
  | Request gateway_call pending

record world =
  app :: app_state
  panelError :: "string option"
  tasks :: "task list"

datatype action =
    UserEvent event
  | GarmentClick WardrobeItem
  | Settle nat "js_error + string"

definition start :: "string_methods \<Rightarrow> app_state \<Rightarrow> event \<Rightarrow> step" where
  "start js s e =
     (case e of
        ModelFinalized u \<Rightarrow> Done (handleModelFinalized s u)
      | StartOver \<Rightarrow> Done (handleStartOver s)
      | GarmentSelect garmentFile garmentInfo \<Rightarrow> handleGarmentSelect_begin s garmentFile garmentInfo
      | RemoveLastGarment \<Rightarrow> Done (handleRemoveLastGarment s)
      | PoseSelect newIndex \<Rightarrow> handlePoseSelect_begin s newIndex
      | CustomPoseGenerate posePrompt \<Rightarrow> handleCustomPoseGenerate_begin js s posePrompt
      | BackgroundChange prompt \<Rightarrow> handleBackgroundChange_begin s prompt
      | BackgroundImageUpload file \<Rightarrow> handleBackgroundImageUpload_begin s file)"

definition enter :: "world \<Rightarrow> step \<Rightarrow> world" where
  "enter w st =
     (case st of
        Done s \<Rightarrow> w\<lparr>app := s\<rparr>
      | Threw \<Rightarrow> w
      | Await s c p \<Rightarrow> w\<lparr>app := s, tasks := tasks w @ [Request c p]\<rparr>)"

definition handleGarmentClick :: "world \<Rightarrow> WardrobeItem \<Rightarrow> world" where
  \<comment> \<open>up to \<open>await urlToFile(item.url, item.name)\<close>\<close>
  "handleGarmentClick w item =
     (if isLoading (app w) \<or> id' item \<in> set (activeGarmentIds (app w)) then w
      else w\<lparr>panelError := None, tasks := tasks w @ [Fetch (app w) item]\<rparr>)"

definition without :: "nat \<Rightarrow> 'a list \<Rightarrow> 'a list" where
  "without k xs = take k xs @ drop (Suc k) xs"

definition act :: "formatter \<Rightarrow> string_methods \<Rightarrow> world \<Rightarrow> action \<Rightarrow> world option" where
  "act fmt js w a =
     (case a of
        UserEvent e \<Rightarrow> Some (enter w (start js (app w) e))
      | GarmentClick item \<Rightarrow> Some (handleGarmentClick w item)
      | Settle k r \<Rightarrow>
          (case at (tasks w) k of
             None \<Rightarrow> Some w
           | Some (Request c p) \<Rightarrow>
               (case resume fmt p r (app w) of
                  None \<Rightarrow> None
                | Some s \<Rightarrow> Some (w\<lparr>app := s, tasks := without k (tasks w)\<rparr>))
           | Some (Fetch c item) \<Rightarrow>
               (case r of
                  Inr file \<Rightarrow>
                    Some (enter (w\<lparr>tasks := without k (tasks w)\<rparr>)
                            (handleGarmentSelect_call c (app w) file item))
                | Inl message \<Rightarrow>
                    Some (w\<lparr>panelError := Some message, tasks := without k (tasks w)\<rparr>))))"

fun drive :: "formatter \<Rightarrow> string_methods \<Rightarrow> world \<Rightarrow> action list \<Rightarrow> world option" where
  "drive fmt js w [] = Some w"
| "drive fmt js w (a # rest) =
     (case act fmt js w a of None \<Rightarrow> None | Some w' \<Rightarrow> drive fmt js w' rest)"

definition idle :: "app_state \<Rightarrow> world" where
  \<comment> \<open>nothing awaited\<close>
  "idle s = \<lparr>app = s, panelError = None, tasks = []\<rparr>"

section \<open>Forward navigation as the specification words it\<close>

text \<open>
  The specification's \<open>cycleNext\<close>: the available subsequence is the set of instructions
  rendered for the active layer, taken in catalog order.
\<close>

definition availableInCatalogOrder :: "string list \<Rightarrow> string list \<Rightarrow> string list" where
  "availableInCatalogOrder catalog rendered = filter (\<lambda>p. p \<in> set rendered) catalog"

definition cycleNext_spec :: "string list \<Rightarrow> nat \<Rightarrow> string list \<Rightarrow> nav" where
  "cycleNext_spec catalog currentGlobalIndex layerAvailablePoseKeys =
     (let available = availableInCatalogOrder catalog layerAvailablePoseKeys in
      case indexOf available (at catalog currentGlobalIndex) of
        None \<Rightarrow> nextInMasterList catalog currentGlobalIndex
      | Some i \<Rightarrow>
          if i + 1 < length available
          then (case indexOf catalog (at available (i + 1)) of
                  None \<Rightarrow> NoSelect
                | Some j \<Rightarrow> SelectPose j)
          else nextInMasterList catalog currentGlobalIndex)"

section \<open>Example values\<close>

text \<open>
  An instance of the string methods for the examples: lower case and white space of the
  ASCII range, on which it agrees with the language.
\<close>

definition lower_char :: "char \<Rightarrow> char" where
  "lower_char c =
     (case map_of (zip ''ABCDEFGHIJKLMNOPQRSTUVWXYZ'' ''abcdefghijklmnopqrstuvwxyz'') c of
        None \<Rightarrow> c
      | Some l \<Rightarrow> l)"

definition is_space :: "char \<Rightarrow> bool" where
  "is_space c = ((of_char c :: nat) \<in> {9, 10, 11, 12, 13, 32})"

definition ascii_methods :: string_methods where
  "ascii_methods =
     \<lparr>toLowerCase = map lower_char,
      trim = (\<lambda>s. rev (dropWhile is_space (rev (dropWhile is_space s))))\<rparr>"

definition example_fmt :: formatter where
  "example_fmt err context = context @ ''. '' @ err"

definition gw_ok :: gateway where
  "gw_ok c =
     (case c of
        GenerateVirtualTryOnImage base file \<Rightarrow> Inr (''data:image/png;base64,'' @ file)
      | GeneratePoseVariation base instruction \<Rightarrow> Inr (base @ ''+pose'')
      | ChangeBackgroundImage base prompt \<Rightarrow> Inr (base @ ''+bg'')
      | ChangeBackgroundImageWithImage base file \<Rightarrow> Inr (base @ ''+bg''))"

definition gw_blocked :: gateway where
  "gw_blocked c = Inl ''Request was blocked. Reason: SAFETY. ''"

definition scarf :: WardrobeItem where
  "scarf = \<lparr>id' = ''custom-1'', name = ''scarf.png'', url = ''blob:scarf''\<rparr>"

definition hat :: WardrobeItem where
  "hat = \<lparr>id' = ''custom-2'', name = ''hat.png'', url = ''blob:hat''\<rparr>"

definition model_state :: app_state where
  \<comment> \<open>the fresh session after the model image \<open>data:image/png;base64,MODEL\<close> is finalized\<close>
  "model_state =
    \<lparr>modelImageUrl = Some ''data:image/png;base64,MODEL'',
     outfitHistory =
       [\<lparr>garment = None,
         poseImages = [(''Full frontal view, hands on hips'', ''data:image/png;base64,MODEL'')]\<rparr>],
     currentOutfitIndex = 0, isLoading = False, loadingMessage = [], error = None,
     currentPoseIndex = 0, poseInstructions = DEFAULT_POSE_INSTRUCTIONS,
     isSheetCollapsed = False, wardrobe = defaultWardrobe\<rparr>"

definition one_garment_state :: app_state where
  \<comment> \<open>the scarf applied to the model\<close>
  "one_garment_state =
    \<lparr>modelImageUrl = Some ''data:image/png;base64,MODEL'',
     outfitHistory =
       [\<lparr>garment = None,
         poseImages = [(''Full frontal view, hands on hips'', ''data:image/png;base64,MODEL'')]\<rparr>,
        \<lparr>garment = Some scarf,
         poseImages = [(''Full frontal view, hands on hips'', ''data:image/png;base64,SCARF'')]\<rparr>],
     currentOutfitIndex = 1, isLoading = False, loadingMessage = [], error = None,
     currentPoseIndex = 0, poseInstructions = DEFAULT_POSE_INSTRUCTIONS,
     isSheetCollapsed = False, wardrobe = defaultWardrobe @ [scarf]\<rparr>"

definition two_garments_state :: app_state where
  \<comment> \<open>scarf and hat applied, the hat removed again, the second pose rendered for the
      scarf layer\<close>
  "two_garments_state =
    \<lparr>modelImageUrl = Some ''data:image/png;base64,MODEL'',
     outfitHistory =
       [\<lparr>garment = None,
         poseImages = [(''Full frontal view, hands on hips'', ''data:image/png;base64,MODEL'')]\<rparr>,
        \<lparr>garment = Some scarf,
         poseImages = [(''Full frontal view, hands on hips'', ''data:image/png;base64,SCARF''),
                       (''Slightly turned, 3/4 view'', ''data:image/png;base64,SCARF+pose'')]\<rparr>,
        \<lparr>garment = Some hat,
         poseImages = [(''Full frontal view, hands on hips'', ''data:image/png;base64,HAT'')]\<rparr>],
     currentOutfitIndex = 1, isLoading = False, loadingMessage = [], error = None,
     currentPoseIndex = 1, poseInstructions = DEFAULT_POSE_INSTRUCTIONS,
     isSheetCollapsed = False, wardrobe = defaultWardrobe @ [scarf, hat]\<rparr>"

definition busy_state :: app_state where
  \<comment> \<open>\<open>two_garments_state\<close> while a background change is awaited\<close>
  "busy_state =
     two_garments_state\<lparr>isLoading := True, loadingMessage := ''Changing background...''\<rparr>"

definition three_poses_state :: app_state where
  \<comment> \<open>the third pose rendered for the model layer, then the second, then the third
      selected again\<close>
  "three_poses_state =
    \<lparr>modelImageUrl = Some ''data:image/png;base64,MODEL'',
     outfitHistory =
       [\<lparr>garment = None,
         poseImages = [(''Full frontal view, hands on hips'', ''data:image/png;base64,MODEL''),
                       (''Side profile view'', ''data:image/png;base64,MODEL+pose''),
                       (''Slightly turned, 3/4 view'', ''data:image/png;base64,MODEL+pose'')]\<rparr>],
     currentOutfitIndex = 0, isLoading = False, loadingMessage = [], error = None,
     currentPoseIndex = 2, poseInstructions = DEFAULT_POSE_INSTRUCTIONS,
     isSheetCollapsed = False, wardrobe = defaultWardrobe\<rparr>"

section \<open>Well-formed sessions\<close>

text \<open>
  The invariants of the data model: every layer holds at least one image, under distinct
  keys, and no image is the empty string; the catalog holds no empty instruction; the history
  is empty exactly as long as no model image is set, and otherwise the cursor is one of its
  indices.
\<close>

definition wf_layer :: "OutfitLayer \<Rightarrow> bool" where
  "wf_layer l =
     (poseImages l \<noteq> [] \<and> distinct (object_keys (poseImages l)) \<and>
      [] \<notin> set (object_values (poseImages l)))"

definition wf_state :: "app_state \<Rightarrow> bool" where
  "wf_state s =
     ([] \<notin> set (poseInstructions s) \<and>
      list_all wf_layer (outfitHistory s) \<and>
      (outfitHistory s = [] \<longrightarrow> \<not> truthy (modelImageUrl s)) \<and>
      (outfitHistory s \<noteq> [] \<longrightarrow> currentOutfitIndex s < length (outfitHistory s)))"

definition event_ok :: "event \<Rightarrow> bool" where
  \<comment> \<open>the start screen hands over a model image, not the empty string\<close>
  "event_ok e = (case e of ModelFinalized u \<Rightarrow> u \<noteq> [] | _ \<Rightarrow> True)"

section \<open>Basic facts\<close>

lemma at_Some_iff: "at xs i = Some x \<longleftrightarrow> i < length xs \<and> xs ! i = x"
  by (auto simp: at_def)

lemma set_prop_Nil: "set_prop [] k v = [(k, v)]"
  by (simp add: set_prop_def object_keys_def split: option.splits)

lemma map_of_replace_prop:
  "map_of ps k = Some w \<Longrightarrow>
   map_of (replace_prop ps k v) k' = (if k' = k then Some v else map_of ps k')"
  by (induction ps) (auto split: if_splits)

lemma map_of_insert_index_prop:
  "map_of ps k = None \<Longrightarrow>
   map_of (insert_index_prop n ps k v) k' = (if k' = k then Some v else map_of ps k')"
  by (induction ps) (auto split: option.splits if_splits)

lemma in_object_keys_iff: "k \<in> set (object_keys ps) \<longleftrightarrow> map_of ps k \<noteq> None"
  by (simp add: object_keys_def map_of_eq_None_iff)

lemma get_prop_set_prop:
  "get_prop (set_prop ps k v) k' = (if k' = k then Some v else get_prop ps k')"
proof (cases "map_of ps k")
  case None
  then show ?thesis
    by (simp add: get_prop_def set_prop_def in_object_keys_iff map_of_insert_index_prop
        map_add_def split: option.splits)
next
  case (Some w)
  then show ?thesis
    by (simp add: get_prop_def set_prop_def in_object_keys_iff map_of_replace_prop)
qed

lemma deepCopy_id: "deepCopy h = h"
  by (induction h) (auto simp: deepCopy_def)

text \<open>
  The definitions to unfold when a handler is run on a concrete state.
\<close>

lemmas js_defs = truthy_def at_def to_key_def indexOf_def findIndex_def js_mod_def
  get_prop_def object_keys_def object_values_def set_prop_def array_index_def is_digit_def
  digits_value_def ascii_methods_def is_space_def lower_char_def

lemmas handler_defs = displayImageUrl_def availablePoseKeys_def finish_def
  handleModelFinalized_def handleStartOver_def same_garment_def handleGarmentSelect_begin_def
  addToWardrobe_def handleGarmentSelect_settle_def handleRemoveLastGarment_def setPoseImage_def
  handlePoseSelect_begin_def handlePoseSelect_settle_def handleCustomPoseGenerate_begin_def
  handleCustomPoseGenerate_settle_def deepCopy_def handleBackgroundChange_begin_def
  handleBackgroundImageUpload_begin_def setBackgroundImage_def handleBackgroundChange_settle_def
  resume_def run_def handleGarmentSelect_def handlePoseSelect_def handleCustomPoseGenerate_def
  handleBackgroundChange_def handleBackgroundImageUpload_def Let_def

lemmas example_defs = example_fmt_def gw_ok_def gw_blocked_def scarf_def hat_def model_state_def
  one_garment_state_def two_garments_state_def busy_state_def three_poses_state_def initial_state_def
  DEFAULT_POSE_INSTRUCTIONS_def defaultWardrobe_def

section \<open>The example states are states of real sessions\<close>

text \<open>
  Each example state is what the handlers produce from the initial state; \<open>busy_state\<close> is
  the state in which \<open>handleBackgroundChange\<close> waits for the gateway.
\<close>

lemma model_state_reached:
  "session example_fmt ascii_methods gw_ok initial_state [ModelFinalized ''data:image/png;base64,MODEL'']
   = Some model_state"
  by (simp add: js_defs handler_defs example_defs)

lemma one_garment_state_reached:
  "session example_fmt ascii_methods gw_ok model_state [GarmentSelect ''SCARF'' scarf]
   = Some one_garment_state"
  by (simp add: js_defs handler_defs example_defs)

lemma two_garments_state_reached:
  "session example_fmt ascii_methods gw_ok model_state
     [GarmentSelect ''SCARF'' scarf, GarmentSelect ''HAT'' hat, RemoveLastGarment, PoseSelect 1]
   = Some two_garments_state"
  by (simp add: js_defs handler_defs example_defs)

lemma busy_state_reached:
  "handleBackgroundChange_begin two_garments_state ''A serene beach'' =
     Await busy_state
       (ChangeBackgroundImage ''data:image/png;base64,SCARF+pose'' ''A serene beach'')
       (PendingBackground 1 (Some ''Slightly turned, 3/4 view''))"
  by (simp add: js_defs handler_defs example_defs)

lemma three_poses_state_reached:
  "session example_fmt ascii_methods gw_ok model_state [PoseSelect 2, PoseSelect 1, PoseSelect 2]
   = Some three_poses_state"
  by (simp add: js_defs handler_defs example_defs)

section \<open>Single flight\<close>

text \<open>
  The five asynchronous handlers test \<open>isLoading\<close> before anything else, also on the paths
  that make no request (the cached layer of \<open>handleGarmentSelect\<close>, which moves the cursor
  forward and resets the pose, and the cached pose of \<open>handlePoseSelect\<close>): while the flag is
  set they return with no gateway request and the state as it was. \<open>handleRemoveLastGarment\<close>
  keeps the history, the catalog, the wardrobe, the error slot and the flag, but with a cursor
  above 0 it steps the cursor back and resets the pose index whatever the flag says.
\<close>

theorem busy_flag_gates_the_asynchronous_handlers:
  "isLoading s \<Longrightarrow>
     handleGarmentSelect fmt gw s garmentFile garmentInfo = Settled s [] \<and>
     handlePoseSelect fmt gw s newIndex = Settled s [] \<and>
     handleCustomPoseGenerate fmt js gw s posePrompt = Settled s [] \<and>
     handleBackgroundChange fmt gw s prompt = Settled s [] \<and>
     handleBackgroundImageUpload fmt gw s file = Settled s [] \<and>
     outfitHistory (handleRemoveLastGarment s) = outfitHistory s \<and>
     poseInstructions (handleRemoveLastGarment s) = poseInstructions s \<and>
     wardrobe (handleRemoveLastGarment s) = wardrobe s \<and>
     error (handleRemoveLastGarment s) = error s \<and>
     isLoading (handleRemoveLastGarment s) \<and>
     (0 < currentOutfitIndex s \<longrightarrow>
        currentOutfitIndex (handleRemoveLastGarment s) = currentOutfitIndex s - 1 \<and>
        currentPoseIndex (handleRemoveLastGarment s) = 0) \<and>
     (currentOutfitIndex s = 0 \<longrightarrow> handleRemoveLastGarment s = s)"
  by (simp add: handleGarmentSelect_def handleGarmentSelect_begin_def handlePoseSelect_def
      handlePoseSelect_begin_def handleCustomPoseGenerate_def handleCustomPoseGenerate_begin_def
      handleBackgroundChange_def handleBackgroundChange_begin_def handleBackgroundImageUpload_def
      handleBackgroundImageUpload_begin_def run_def handleRemoveLastGarment_def)

theorem busy_flag_gates_the_asynchronous_handlers_witness:
  "isLoading busy_state \<and>
   handleGarmentSelect example_fmt gw_ok busy_state ''HAT'' hat = Settled busy_state [] \<and>
   handlePoseSelect example_fmt gw_ok busy_state 0 = Settled busy_state [] \<and>
   handleCustomPoseGenerate example_fmt ascii_methods gw_ok busy_state ''Arms crossed'' =
     Settled busy_state [] \<and>
   handleBackgroundChange example_fmt gw_ok busy_state ''A serene beach'' = Settled busy_state [] \<and>
   handleBackgroundImageUpload example_fmt gw_ok busy_state ''BEACH'' = Settled busy_state [] \<and>
   outfitHistory (handleRemoveLastGarment busy_state) = outfitHistory busy_state \<and>
   currentOutfitIndex (handleRemoveLastGarment busy_state) = 0"
proof -
  have busy: "isLoading busy_state"
    by (simp add: busy_state_def)
  have cursor: "currentOutfitIndex busy_state = 1"
    by (simp add: busy_state_def two_garments_state_def)
  from busy_flag_gates_the_asynchronous_handlers
         [OF busy, where fmt = example_fmt and gw = gw_ok and garmentFile = "''HAT''"
            and garmentInfo = hat and newIndex = 0 and js = ascii_methods
            and posePrompt = "''Arms crossed''" and prompt = "''A serene beach''"]
  show ?thesis using busy cursor by simp
qed

text \<open>
  Claim C1: a mutating operation invoked while a mutation is in flight is ignored and leaves
  the session state unchanged. \<open>handleRemoveLastGarment\<close> does not test \<open>isLoading\<close>: in
  \<open>busy_state\<close>, where a background change is awaited, it moves the cursor from layer 1 to
  layer 0 and the pose index from 1 to 0.
\<close>

theorem remove_while_busy_moves_the_cursor:
  "isLoading busy_state \<and>
   currentOutfitIndex busy_state = 1 \<and> currentPoseIndex busy_state = 1 \<and>
   currentOutfitIndex (handleRemoveLastGarment busy_state) = 0 \<and>
   currentPoseIndex (handleRemoveLastGarment busy_state) = 0"
  by (simp add: busy_state_def two_garments_state_def handleRemoveLastGarment_def)

text \<open>
  What the missing test costs: \<open>handleGarmentSelect\<close> cuts the history at the cursor it
  captured but advances the cursor of the moment. After a removal made while the garment is
  awaited, the new layer is appended behind the old one and the cursor ends on the old layer,
  not on the new last layer.
\<close>

lemma removal_while_a_garment_is_awaited:
  assumes "handleGarmentSelect_begin s garmentFile garmentInfo = Await s' c p"
    and "0 < currentOutfitIndex s"
    and "currentOutfitIndex s < length (outfitHistory s)"
  shows "\<exists>t. resume fmt p (Inr img) (handleRemoveLastGarment s') = Some t \<and>
           length (outfitHistory t) = currentOutfitIndex s + 2 \<and>
           garment (outfitHistory t ! (currentOutfitIndex s + 1)) = Some garmentInfo \<and>
           currentOutfitIndex t = currentOutfitIndex s"
  using assms
  by (auto simp: handleGarmentSelect_begin_def handleRemoveLastGarment_def resume_def
      handleGarmentSelect_settle_def finish_def Let_def nth_append split: if_splits)

section \<open>Runs in which something happens while a request is awaited\<close>

lemmas world_defs = act_def enter_def start_def handleGarmentClick_def activeGarmentIds_def
  activeOutfitLayers_def handleGarmentSelect_call_def without_def idle_def

text \<open>
  \<open>handleGarmentSelect\<close> called in the render that created it is
  \<open>handleGarmentSelect_begin\<close>, and a run of \<open>drive\<close> in which the answer to a request is
  the next thing that happens is the uninterrupted run \<open>perform\<close>.
\<close>

lemma handleGarmentSelect_call_in_its_own_render:
  "handleGarmentSelect_call s s garmentFile garmentInfo =
     handleGarmentSelect_begin s garmentFile garmentInfo"
  by (simp add: handleGarmentSelect_call_def handleGarmentSelect_begin_def)

lemma perform_is_the_uninterrupted_run:
  "perform fmt js gw s e = run fmt gw (start js s e)"
  by (cases e)
    (simp_all add: start_def run_def handleGarmentSelect_def handlePoseSelect_def
      handleCustomPoseGenerate_def handleBackgroundChange_def handleBackgroundImageUpload_def)

lemma drive_answered_at_once:
  assumes "start js s e = Await s' c p"
  shows "drive fmt js (idle s) [UserEvent e, Settle 0 (gw c)] =
           (case perform fmt js gw s e of
              Settled t cs \<Rightarrow> Some (idle t)
            | Uncaught \<Rightarrow> Some (idle s)
            | RenderError \<Rightarrow> None)"
  using assms
  by (simp add: perform_is_the_uninterrupted_run run_def act_def enter_def idle_def at_def
      without_def split: option.splits)

lemma drive_without_request:
  assumes "\<forall>s' c p. start js s e \<noteq> Await s' c p"
  shows "drive fmt js (idle s) [UserEvent e] =
           (case perform fmt js gw s e of
              Settled t cs \<Rightarrow> Some (idle t)
            | Uncaught \<Rightarrow> Some (idle s)
            | RenderError \<Rightarrow> None)"
  using assms
  by (cases "start js s e")
    (simp_all add: perform_is_the_uninterrupted_run run_def act_def enter_def idle_def)

section \<open>Applying a garment\<close>

text \<open>
  The uninterrupted selection: when \<open>handleGarmentSelect\<close> reaches the gateway (an image is
  displayed, nothing is in flight, the layer after the cursor is missing or holds another
  garment) and the gateway's image is the next thing that happens, the new history is the old
  one cut after the cursor plus one layer holding the garment and that image under the current
  pose instruction, and the cursor is the old cursor plus one. When the old cursor was a valid
  index, this is the last index of the new history.
\<close>

lemma new_layer_replaces_the_redo_buffer:
  "truthy (displayImageUrl s) \<Longrightarrow> \<not> isLoading s \<Longrightarrow>
   (\<forall>l. at (outfitHistory s) (currentOutfitIndex s + 1) = Some l \<longrightarrow> \<not> same_garment l garmentInfo) \<Longrightarrow>
   gw (GenerateVirtualTryOnImage (the (displayImageUrl s)) garmentFile) = Inr resultImage \<Longrightarrow>
   \<exists>t. handleGarmentSelect fmt gw s garmentFile garmentInfo =
          Settled t [GenerateVirtualTryOnImage (the (displayImageUrl s)) garmentFile] \<and>
        outfitHistory t =
          take (currentOutfitIndex s + 1) (outfitHistory s) @
            [\<lparr>garment = Some garmentInfo,
              poseImages = [(to_key (at (poseInstructions s) (currentPoseIndex s)), resultImage)]\<rparr>] \<and>
        currentOutfitIndex t = currentOutfitIndex s + 1 \<and>
        (currentOutfitIndex s < length (outfitHistory s) \<longrightarrow>
           length (outfitHistory t) = currentOutfitIndex s + 2 \<and>
           currentOutfitIndex t = length (outfitHistory t) - 1) \<and>
        (currentPoseIndex s < length (poseInstructions s) \<longrightarrow>
           to_key (at (poseInstructions s) (currentPoseIndex s)) =
             poseInstructions s ! currentPoseIndex s)"
  by (auto simp: handleGarmentSelect_def handleGarmentSelect_begin_def run_def resume_def
      handleGarmentSelect_settle_def finish_def set_prop_Nil Let_def at_def to_key_def
      split: option.splits)

lemma new_layer_replaces_the_redo_buffer_witness:
  "\<exists>t. handleGarmentSelect example_fmt gw_ok two_garments_state ''TEE'' (defaultWardrobe ! 1) =
          Settled t [GenerateVirtualTryOnImage ''data:image/png;base64,SCARF+pose'' ''TEE''] \<and>
        outfitHistory t =
          take 2 (outfitHistory two_garments_state) @
            [\<lparr>garment = Some (defaultWardrobe ! 1),
              poseImages = [(''Slightly turned, 3/4 view'', ''data:image/png;base64,TEE'')]\<rparr>] \<and>
        length (outfitHistory two_garments_state) = 3 \<and>
        length (outfitHistory t) = 3 \<and>
        currentOutfitIndex t = 2"
proof -
  have shown: "truthy (displayImageUrl two_garments_state)"
    by (simp add: two_garments_state_def displayImageUrl_def js_defs DEFAULT_POSE_INSTRUCTIONS_def)
  have img: "the (displayImageUrl two_garments_state) = ''data:image/png;base64,SCARF+pose''"
    by (simp add: two_garments_state_def displayImageUrl_def js_defs DEFAULT_POSE_INSTRUCTIONS_def)
  have idle: "\<not> isLoading two_garments_state"
    by (simp add: two_garments_state_def)
  have miss: "\<forall>l. at (outfitHistory two_garments_state)
                    (currentOutfitIndex two_garments_state + 1) = Some l \<longrightarrow>
                \<not> same_garment l (defaultWardrobe ! 1)"
    by (simp add: two_garments_state_def at_def same_garment_def hat_def defaultWardrobe_def)
  have answer: "gw_ok (GenerateVirtualTryOnImage (the (displayImageUrl two_garments_state)) ''TEE'')
      = Inr ''data:image/png;base64,TEE''"
    by (simp add: gw_ok_def)
  have facts: "currentOutfitIndex two_garments_state = 1"
    "currentPoseIndex two_garments_state = 1"
    "length (outfitHistory two_garments_state) = 3"
    "to_key (at (poseInstructions two_garments_state) (Suc 0)) = ''Slightly turned, 3/4 view''"
    by (simp_all add: two_garments_state_def js_defs DEFAULT_POSE_INSTRUCTIONS_def)
  from new_layer_replaces_the_redo_buffer
         [where s = two_garments_state and garmentInfo = "defaultWardrobe ! 1" and gw = gw_ok
            and garmentFile = "''TEE''" and fmt = example_fmt, OF shown idle miss answer]
  show ?thesis by (auto simp: img facts eval_nat_numeral)
qed

text \<open>
  Claim C2: a successful garment application cuts the history after the cursor, appends the
  new layer and leaves the cursor at the prior cursor plus one, the last index of the new
  history. \<open>handleGarmentSelect\<close> cuts the history at the cursor it captured when it was
  called, but advances the cursor of the moment the image arrives, and
  \<open>handleRemoveLastGarment\<close> does not test \<open>isLoading\<close>. In \<open>one_garment_state\<close> (two
  layers, cursor 1) the hat is selected, the last garment is removed while the request is
  awaited, and the gateway answers with an image: the history has three layers, the hat last,
  and the cursor is 1, the prior cursor and not the last index 2.
\<close>

theorem removal_during_the_await_leaves_the_cursor_behind:
  "currentOutfitIndex one_garment_state = 1 \<and>
   length (outfitHistory one_garment_state) = 2 \<and>
   drive example_fmt ascii_methods (idle one_garment_state)
     [UserEvent (GarmentSelect ''HAT'' hat)] =
   Some \<lparr>app = one_garment_state\<lparr>isLoading := True, loadingMessage := ''Adding hat.png...''\<rparr>,
         panelError = None,
         tasks = [Request (GenerateVirtualTryOnImage ''data:image/png;base64,SCARF'' ''HAT'')
                    (PendingGarment 1 (Some ''Full frontal view, hands on hips'') hat)]\<rparr> \<and>
   drive example_fmt ascii_methods (idle one_garment_state)
     [UserEvent (GarmentSelect ''HAT'' hat), UserEvent RemoveLastGarment,
      Settle 0 (Inr ''data:image/png;base64,HAT'')] =
   Some (idle (one_garment_state
     \<lparr>outfitHistory := outfitHistory one_garment_state @
        [\<lparr>garment = Some hat,
          poseImages = [(''Full frontal view, hands on hips'', ''data:image/png;base64,HAT'')]\<rparr>],
      currentOutfitIndex := 1,
      wardrobe := defaultWardrobe @ [scarf, hat]\<rparr>))"
  by (simp add: world_defs js_defs handler_defs example_defs)




text \<open>
  A selection that reaches the gateway and succeeds from a state whose cursor is the last
  layer moves the cursor to the new last layer.
\<close>

lemma handleGarmentSelect_pushes:
  assumes "handleGarmentSelect fmt gw s garmentFile garmentInfo = Settled t [c]"
    and "gw c = Inr img"
    and "currentOutfitIndex s + 1 = length (outfitHistory s)"
  shows "currentOutfitIndex t = currentOutfitIndex s + 1 \<and>
         length (outfitHistory t) = length (outfitHistory s) + 1"
  using assms
  by (auto simp: handleGarmentSelect_def handleGarmentSelect_begin_def run_def resume_def
      handleGarmentSelect_settle_def finish_def Let_def split: if_splits option.splits)

lemma applyGarments_counts:
  "applyGarments fmt gw s garments = Some t \<Longrightarrow>
   currentOutfitIndex s + 1 = length (outfitHistory s) \<Longrightarrow>
   currentOutfitIndex t = currentOutfitIndex s + length garments \<and>
   length (outfitHistory t) = length (outfitHistory s) + length garments"
proof (induction garments arbitrary: s)
  case Nil
  then show ?case by simp
next
  case (Cons g garments)
  obtain garmentFile garmentInfo where g: "g = (garmentFile, garmentInfo)" by (cases g)
  from Cons.prems(1) obtain u c img where
    step: "handleGarmentSelect fmt gw s garmentFile garmentInfo = Settled u [c]"
    and answer: "gw c = Inr img"
    and rest: "applyGarments fmt gw u garments = Some t"
    by (auto simp: g split: outcome.splits list.splits sum.splits)
  from handleGarmentSelect_pushes[OF step answer Cons.prems(2)]
  have u: "currentOutfitIndex u = currentOutfitIndex s + 1"
    "length (outfitHistory u) = length (outfitHistory s) + 1" by simp_all
  with Cons.prems(2) have "currentOutfitIndex u + 1 = length (outfitHistory u)" by simp
  from Cons.IH[OF rest this] u show ?case by simp
qed

text \<open>
  Selections made in turn: \<open>handleModelFinalized\<close> leaves exactly the root layer, without
  garment, and the cursor 0; after \<open>N\<close> garment selections that each reach the gateway and
  succeed before the next one is made, the cursor is \<open>N\<close> and the history has \<open>N + 1\<close>
  layers.
\<close>

lemma cursor_counts_the_applied_garments:
  "applyGarments fmt gw (handleModelFinalized s u) garments = Some t \<Longrightarrow>
   outfitHistory (handleModelFinalized s u) =
     [\<lparr>garment = None, poseImages = [(to_key (at (poseInstructions s) 0), u)]\<rparr>] \<and>
   currentOutfitIndex (handleModelFinalized s u) = 0 \<and>
   currentOutfitIndex t = length garments \<and>
   length (outfitHistory t) = length garments + 1"
  using applyGarments_counts[of fmt gw "handleModelFinalized s u" garments t]
  by (simp add: handleModelFinalized_def set_prop_Nil)

lemma cursor_counts_the_applied_garments_witness:
  "\<exists>t. applyGarments example_fmt gw_ok
          (handleModelFinalized initial_state ''data:image/png;base64,MODEL'')
          [(''SCARF'', scarf), (''HAT'', hat)] = Some t \<and>
        currentOutfitIndex t = 2 \<and> length (outfitHistory t) = 3"
proof -
  have "\<exists>t. applyGarments example_fmt gw_ok
          (handleModelFinalized initial_state ''data:image/png;base64,MODEL'')
          [(''SCARF'', scarf), (''HAT'', hat)] = Some t"
    by (simp add: js_defs handler_defs example_defs)
  then obtain t where t: "applyGarments example_fmt gw_ok
          (handleModelFinalized initial_state ''data:image/png;base64,MODEL'')
          [(''SCARF'', scarf), (''HAT'', hat)] = Some t" ..
  from cursor_counts_the_applied_garments [OF t] t show ?thesis by simp
qed

text \<open>
  Claim C4: after \<open>N\<close> successful garment applications from a fresh model the cursor is
  \<open>N\<close> and the history has \<open>N + 1\<close> layers. The wardrobe panel tests \<open>isLoading\<close>, then
  awaits \<open>urlToFile\<close>, then calls the \<open>handleGarmentSelect\<close> of the render of the click,
  whose own test reads the \<open>isLoading\<close> of that render. From the fresh model two wardrobe
  items are clicked before the first file has loaded: both calls pass the test, both reach the
  gateway with the model's image, both cut the history at the captured cursor 0 and both
  advance the cursor. After the two images the history has 2 layers and the cursor is 2, the
  index of no layer.
\<close>

theorem overlapping_selections_lose_a_layer:
  "handleModelFinalized initial_state ''data:image/png;base64,MODEL'' = model_state \<and>
   drive example_fmt ascii_methods (idle model_state)
     [GarmentClick (defaultWardrobe ! 0), GarmentClick (defaultWardrobe ! 1),
      Settle 0 (Inr ''SWEAT''), Settle 0 (Inr ''TEE'')] =
   Some \<lparr>app = model_state\<lparr>isLoading := True, loadingMessage := ''Adding Gemini Tee...''\<rparr>,
         panelError = None,
         tasks = [Request (GenerateVirtualTryOnImage ''data:image/png;base64,MODEL'' ''SWEAT'')
                    (PendingGarment 0 (Some ''Full frontal view, hands on hips'')
                       (defaultWardrobe ! 0)),
                  Request (GenerateVirtualTryOnImage ''data:image/png;base64,MODEL'' ''TEE'')
                    (PendingGarment 0 (Some ''Full frontal view, hands on hips'')
                       (defaultWardrobe ! 1))]\<rparr> \<and>
   drive example_fmt ascii_methods (idle model_state)
     [GarmentClick (defaultWardrobe ! 0), GarmentClick (defaultWardrobe ! 1),
      Settle 0 (Inr ''SWEAT''), Settle 0 (Inr ''TEE''),
      Settle 0 (Inr ''data:image/png;base64,SWEAT''),
      Settle 0 (Inr ''data:image/png;base64,TEE'')] =
   Some (idle (model_state
     \<lparr>outfitHistory :=
        [\<lparr>garment = None,
          poseImages = [(''Full frontal view, hands on hips'', ''data:image/png;base64,MODEL'')]\<rparr>,
         \<lparr>garment = Some (defaultWardrobe ! 1),
          poseImages = [(''Full frontal view, hands on hips'', ''data:image/png;base64,TEE'')]\<rparr>],
      currentOutfitIndex := 2\<rparr>))"
  by (simp add: world_defs js_defs handler_defs example_defs)

section \<open>Changing the background\<close>

lemma length_setBackgroundImage:
  "length (setBackgroundImage k instr img h) = length h"
  by (simp add: setBackgroundImage_def deepCopy_id Let_def split: option.splits)

lemma setBackgroundImage_other_layer:
  "j \<noteq> k \<Longrightarrow> at (setBackgroundImage k instr img h) j = at h j"
  by (simp add: setBackgroundImage_def deepCopy_id Let_def at_def split: option.splits)

lemma setBackgroundImage_current_layer:
  assumes "at h k = Some layer"
  shows "\<exists>layer'. at (setBackgroundImage k instr img h) k = Some layer' \<and>
           garment layer' = garment layer \<and>
           (\<forall>key. Some key \<noteq> instr \<longrightarrow>
              get_prop (poseImages layer') key = get_prop (poseImages layer) key) \<and>
           (truthy instr \<longrightarrow> get_prop (poseImages layer') (the instr) = Some img)"
proof (cases "truthy instr")
  case True
  then obtain p where p: "instr = Some p" by (auto simp: truthy_def split: option.splits)
  from assms have k: "k < length h" and l: "h ! k = layer" by (auto simp: at_Some_iff)
  have "setBackgroundImage k instr img h =
          h[k := layer\<lparr>poseImages := set_prop (poseImages layer) p img\<rparr>]"
    using assms True by (simp add: setBackgroundImage_def deepCopy_id p)
  then show ?thesis using k by (auto simp: at_def p get_prop_set_prop)
next
  case False
  then have "setBackgroundImage k instr img h = h"
    using assms by (simp add: setBackgroundImage_def deepCopy_id)
  then show ?thesis using assms False by simp
qed

text \<open>
  Claim C5: after a successful background change, by prompt or by image, the history has the
  same length, every layer but the one at the cursor is the same, and that layer keeps its
  garment and the image of every pose instruction other than the current one; the current
  instruction maps to the new image. The cursor, the pose index and the catalog do not move.
\<close>

theorem background_change_touches_one_image:
  assumes idle: "\<not> isLoading s" and shown: "truthy (displayImageUrl s)"
    and variant:
      "(res = handleBackgroundChange fmt gw s prompt \<and>
        c = ChangeBackgroundImage (the (displayImageUrl s)) prompt) \<or>
       (res = handleBackgroundImageUpload fmt gw s file \<and>
        c = ChangeBackgroundImageWithImage (the (displayImageUrl s)) file)"
    and success: "gw c = Inr newImageUrl"
  shows "\<exists>t. res = Settled t [c] \<and>
           length (outfitHistory t) = length (outfitHistory s) \<and>
           (\<forall>j. j \<noteq> currentOutfitIndex s \<longrightarrow> at (outfitHistory t) j = at (outfitHistory s) j) \<and>
           (\<forall>layer. at (outfitHistory s) (currentOutfitIndex s) = Some layer \<longrightarrow>
              (\<exists>layer'. at (outfitHistory t) (currentOutfitIndex s) = Some layer' \<and>
                 garment layer' = garment layer \<and>
                 (\<forall>k. Some k \<noteq> at (poseInstructions s) (currentPoseIndex s) \<longrightarrow>
                    get_prop (poseImages layer') k = get_prop (poseImages layer) k) \<and>
                 (truthy (at (poseInstructions s) (currentPoseIndex s)) \<longrightarrow>
                    get_prop (poseImages layer') (poseInstructions s ! currentPoseIndex s) =
                      Some newImageUrl))) \<and>
           currentOutfitIndex t = currentOutfitIndex s \<and>
           currentPoseIndex t = currentPoseIndex s \<and>
           poseInstructions t = poseInstructions s"
proof -
  let ?instr = "at (poseInstructions s) (currentPoseIndex s)"
  let ?t = "finish (s\<lparr>error := None, isLoading := True, loadingMessage := ''Changing background...'',
              outfitHistory := setBackgroundImage (currentOutfitIndex s) ?instr newImageUrl
                (outfitHistory s)\<rparr>)"
  from variant idle shown success have res: "res = Settled ?t [c]"
    by (auto simp: handleBackgroundChange_def handleBackgroundChange_begin_def
        handleBackgroundImageUpload_def handleBackgroundImageUpload_begin_def run_def resume_def
        handleBackgroundChange_settle_def finish_def)
  have hist: "outfitHistory ?t =
      setBackgroundImage (currentOutfitIndex s) ?instr newImageUrl (outfitHistory s)"
    by (simp add: finish_def)
  have same: "truthy ?instr \<Longrightarrow> the ?instr = poseInstructions s ! currentPoseIndex s"
    by (auto simp: truthy_def at_def split: option.splits if_splits)
  have cur: "\<forall>layer. at (outfitHistory s) (currentOutfitIndex s) = Some layer \<longrightarrow>
      (\<exists>layer'. at (outfitHistory ?t) (currentOutfitIndex s) = Some layer' \<and>
         garment layer' = garment layer \<and>
         (\<forall>k. Some k \<noteq> ?instr \<longrightarrow>
            get_prop (poseImages layer') k = get_prop (poseImages layer) k) \<and>
         (truthy ?instr \<longrightarrow>
            get_prop (poseImages layer') (poseInstructions s ! currentPoseIndex s) =
              Some newImageUrl))"
  proof (intro allI impI)
    fix layer
    assume "at (outfitHistory s) (currentOutfitIndex s) = Some layer"
    from setBackgroundImage_current_layer[OF this, of ?instr newImageUrl]
    show "\<exists>layer'. at (outfitHistory ?t) (currentOutfitIndex s) = Some layer' \<and>
         garment layer' = garment layer \<and>
         (\<forall>k. Some k \<noteq> ?instr \<longrightarrow>
            get_prop (poseImages layer') k = get_prop (poseImages layer) k) \<and>
         (truthy ?instr \<longrightarrow>
            get_prop (poseImages layer') (poseInstructions s ! currentPoseIndex s) =
              Some newImageUrl)"
      unfolding hist using same by auto
  qed
  have "length (outfitHistory ?t) = length (outfitHistory s)"
    unfolding hist by (rule length_setBackgroundImage)
  moreover have "\<forall>j. j \<noteq> currentOutfitIndex s \<longrightarrow>
      at (outfitHistory ?t) j = at (outfitHistory s) j"
    unfolding hist by (simp add: setBackgroundImage_other_layer)
  moreover have "currentOutfitIndex ?t = currentOutfitIndex s"
    "currentPoseIndex ?t = currentPoseIndex s" "poseInstructions ?t = poseInstructions s"
    by (simp_all add: finish_def)
  ultimately show ?thesis using res cur by blast
qed

theorem background_change_touches_one_image_witness:
  "\<exists>t. handleBackgroundChange example_fmt gw_ok two_garments_state ''A serene beach'' =
          Settled t [ChangeBackgroundImage ''data:image/png;base64,SCARF+pose'' ''A serene beach''] \<and>
        at (outfitHistory t) 0 = at (outfitHistory two_garments_state) 0 \<and>
        at (outfitHistory t) 2 = at (outfitHistory two_garments_state) 2 \<and>
        (\<exists>layer'. at (outfitHistory t) 1 = Some layer' \<and>
           get_prop (poseImages layer') ''Full frontal view, hands on hips'' =
             Some ''data:image/png;base64,SCARF'' \<and>
           get_prop (poseImages layer') ''Slightly turned, 3/4 view'' =
             Some ''data:image/png;base64,SCARF+pose+bg'')"
proof -
  let ?c = "ChangeBackgroundImage ''data:image/png;base64,SCARF+pose'' ''A serene beach''"
  let ?layer = "\<lparr>garment = Some scarf,
           poseImages = [(''Full frontal view, hands on hips'', ''data:image/png;base64,SCARF''),
                         (''Slightly turned, 3/4 view'', ''data:image/png;base64,SCARF+pose'')]\<rparr>"
  have shown: "truthy (displayImageUrl two_garments_state)"
    by (simp add: two_garments_state_def displayImageUrl_def js_defs DEFAULT_POSE_INSTRUCTIONS_def)
  have img: "the (displayImageUrl two_garments_state) = ''data:image/png;base64,SCARF+pose''"
    by (simp add: two_garments_state_def displayImageUrl_def js_defs DEFAULT_POSE_INSTRUCTIONS_def)
  have idle: "\<not> isLoading two_garments_state"
    by (simp add: two_garments_state_def)
  have variant:
    "(handleBackgroundChange example_fmt gw_ok two_garments_state ''A serene beach'' =
        handleBackgroundChange example_fmt gw_ok two_garments_state ''A serene beach'' \<and>
      ?c = ChangeBackgroundImage (the (displayImageUrl two_garments_state)) ''A serene beach'') \<or>
     (handleBackgroundChange example_fmt gw_ok two_garments_state ''A serene beach'' =
        handleBackgroundImageUpload example_fmt gw_ok two_garments_state ''BEACH'' \<and>
      ?c = ChangeBackgroundImageWithImage (the (displayImageUrl two_garments_state)) ''BEACH'')"
    by (simp add: img)
  have answer: "gw_ok ?c = Inr ''data:image/png;base64,SCARF+pose+bg''"
    by (simp add: gw_ok_def)
  have facts: "currentOutfitIndex two_garments_state = 1"
    "currentPoseIndex two_garments_state = 1"
    "at (outfitHistory two_garments_state) 1 = Some ?layer"
    "at (poseInstructions two_garments_state) 1 = Some ''Slightly turned, 3/4 view''"
    "poseInstructions two_garments_state ! 1 = ''Slightly turned, 3/4 view''"
    by (simp_all add: two_garments_state_def js_defs DEFAULT_POSE_INSTRUCTIONS_def)
  from background_change_touches_one_image [OF idle shown variant answer]
  obtain t where t: "handleBackgroundChange example_fmt gw_ok two_garments_state ''A serene beach'' =
      Settled t [?c]"
    and others: "\<forall>j. j \<noteq> currentOutfitIndex two_garments_state \<longrightarrow>
                   at (outfitHistory t) j = at (outfitHistory two_garments_state) j"
    and cur: "\<forall>layer. at (outfitHistory two_garments_state)
                        (currentOutfitIndex two_garments_state) = Some layer \<longrightarrow>
              (\<exists>layer'. at (outfitHistory t) (currentOutfitIndex two_garments_state) = Some layer' \<and>
                 garment layer' = garment layer \<and>
                 (\<forall>k. Some k \<noteq> at (poseInstructions two_garments_state)
                                   (currentPoseIndex two_garments_state) \<longrightarrow>
                    get_prop (poseImages layer') k = get_prop (poseImages layer) k) \<and>
                 (truthy (at (poseInstructions two_garments_state)
                            (currentPoseIndex two_garments_state)) \<longrightarrow>
                    get_prop (poseImages layer')
                      (poseInstructions two_garments_state ! currentPoseIndex two_garments_state) =
                      Some ''data:image/png;base64,SCARF+pose+bg''))"
    by blast
  from cur facts obtain layer' where l: "at (outfitHistory t) 1 = Some layer'"
    and keep: "\<forall>k. Some k \<noteq> Some ''Slightly turned, 3/4 view'' \<longrightarrow>
                    get_prop (poseImages layer') k = get_prop (poseImages ?layer) k"
    and new: "truthy (Some ''Slightly turned, 3/4 view'') \<longrightarrow>
              get_prop (poseImages layer') ''Slightly turned, 3/4 view'' =
                      Some ''data:image/png;base64,SCARF+pose+bg''"
    by auto
  from keep have "get_prop (poseImages layer') ''Full frontal view, hands on hips'' =
      Some ''data:image/png;base64,SCARF''"
    by (simp add: get_prop_def)
  moreover from new have "get_prop (poseImages layer') ''Slightly turned, 3/4 view'' =
                      Some ''data:image/png;base64,SCARF+pose+bg''"
    by (simp add: truthy_def)
  moreover from others facts have "at (outfitHistory t) 0 = at (outfitHistory two_garments_state) 0"
    "at (outfitHistory t) 2 = at (outfitHistory two_garments_state) 2"
    by simp_all
  ultimately show ?thesis using t l by blast
qed

section \<open>Selecting a pose\<close>

text \<open>
  Claim C6 says that selecting a cached pose other than the current one always sets the pose
  index. The handler first returns when a mutation is in flight: in \<open>busy_state\<close> the layer
  at the cursor holds an image for instruction 0, the pose index is 1, and selecting pose 0
  changes nothing.
\<close>

theorem busy_session_ignores_a_cached_pose:
  "isLoading busy_state \<and>
   at (outfitHistory busy_state) (currentOutfitIndex busy_state) =
     Some \<lparr>garment = Some scarf,
           poseImages = [(''Full frontal view, hands on hips'', ''data:image/png;base64,SCARF''),
                         (''Slightly turned, 3/4 view'', ''data:image/png;base64,SCARF+pose'')]\<rparr> \<and>
   at (poseInstructions busy_state) 0 = Some ''Full frontal view, hands on hips'' \<and>
   currentPoseIndex busy_state = 1 \<and>
   handlePoseSelect example_fmt gw_ok busy_state 0 = Settled busy_state []"
  by (simp add: busy_state_def two_garments_state_def at_def DEFAULT_POSE_INSTRUCTIONS_def
      handlePoseSelect_def handlePoseSelect_begin_def run_def)

text \<open>
  Claim C6 as amended: when no mutation is in flight, the layer at the cursor holds an image
  (a non-empty string, the handler's own test) for the target instruction and the target is
  not the current pose index, \<open>handlePoseSelect\<close> sets the pose index to the target, sends no
  gateway request and changes nothing else. A layer at the cursor implies a non-empty
  history.
\<close>

theorem cached_pose_is_selected_at_once:
  "\<not> isLoading s \<Longrightarrow>
   at (outfitHistory s) (currentOutfitIndex s) = Some currentLayer \<Longrightarrow>
   truthy (get_prop (poseImages currentLayer) (to_key (at (poseInstructions s) target))) \<Longrightarrow>
   target \<noteq> currentPoseIndex s \<Longrightarrow>
   handlePoseSelect fmt gw s target = Settled (s\<lparr>currentPoseIndex := target\<rparr>) []"
proof -
  assume idle: "\<not> isLoading s"
    and layer: "at (outfitHistory s) (currentOutfitIndex s) = Some currentLayer"
    and cached: "truthy (get_prop (poseImages currentLayer) (to_key (at (poseInstructions s) target)))"
    and other: "target \<noteq> currentPoseIndex s"
  from layer have "outfitHistory s \<noteq> []"
    by (auto simp: at_def split: if_splits)
  with idle layer cached other show ?thesis
    by (simp add: handlePoseSelect_def handlePoseSelect_begin_def run_def Let_def)
qed

theorem cached_pose_is_selected_at_once_witness:
  "\<not> isLoading two_garments_state \<and>
   at (outfitHistory two_garments_state) (currentOutfitIndex two_garments_state) =
     Some \<lparr>garment = Some scarf,
           poseImages = [(''Full frontal view, hands on hips'', ''data:image/png;base64,SCARF''),
                         (''Slightly turned, 3/4 view'', ''data:image/png;base64,SCARF+pose'')]\<rparr> \<and>
   currentPoseIndex two_garments_state = 1 \<and>
   handlePoseSelect example_fmt gw_ok two_garments_state 0 =
     Settled (two_garments_state\<lparr>currentPoseIndex := 0\<rparr>) []"
proof -
  let ?layer = "\<lparr>garment = Some scarf,
           poseImages = [(''Full frontal view, hands on hips'', ''data:image/png;base64,SCARF''),
                         (''Slightly turned, 3/4 view'', ''data:image/png;base64,SCARF+pose'')]\<rparr>"
  have idle: "\<not> isLoading two_garments_state"
    by (simp add: two_garments_state_def)
  have layer: "at (outfitHistory two_garments_state) (currentOutfitIndex two_garments_state) =
     Some ?layer"
    by (simp add: two_garments_state_def at_def)
  have cached: "truthy (get_prop (poseImages ?layer)
      (to_key (at (poseInstructions two_garments_state) 0)))"
    by (simp add: two_garments_state_def js_defs DEFAULT_POSE_INSTRUCTIONS_def)
  have other: "0 \<noteq> currentPoseIndex two_garments_state"
    by (simp add: two_garments_state_def)
  have cur: "currentPoseIndex two_garments_state = 1"
    by (simp add: two_garments_state_def)
  from cached_pose_is_selected_at_once [OF idle layer cached other, of example_fmt gw_ok]
  show ?thesis using idle layer cur by simp
qed

text \<open>
  Claim C7: when \<open>handlePoseSelect\<close> reaches the gateway and the request fails, the pose
  index, set to the target before the request, is back at its value before the call, the
  history (so the images of the current layer) is unchanged, and the error slot holds the
  message made from the failure. The message itself comes from \<open>getFriendlyErrorMessage\<close>.
\<close>

theorem failed_pose_change_is_reverted:
  "handlePoseSelect_begin s newIndex = Await s' c p \<Longrightarrow> gw c = Inl err \<Longrightarrow>
   \<exists>t. handlePoseSelect fmt gw s newIndex = Settled t [c] \<and>
        currentPoseIndex s' = newIndex \<and>
        currentPoseIndex t = currentPoseIndex s \<and>
        outfitHistory t = outfitHistory s \<and>
        error t = Some (fmt err ''Failed to change pose'') \<and>
        \<not> isLoading t"
  by (auto simp: handlePoseSelect_def handlePoseSelect_begin_def run_def resume_def
      handlePoseSelect_settle_def finish_def Let_def split: if_splits option.splits)

theorem failed_pose_change_is_reverted_witness:
  "\<exists>t. handlePoseSelect example_fmt gw_blocked model_state 2 =
          Settled t [GeneratePoseVariation ''data:image/png;base64,MODEL'' (Some ''Side profile view'')] \<and>
        currentPoseIndex model_state = 0 \<and> currentPoseIndex t = 0 \<and>
        outfitHistory t = outfitHistory model_state \<and>
        error t = Some ''Failed to change pose. Request was blocked. Reason: SAFETY. ''"
proof -
  let ?c = "GeneratePoseVariation ''data:image/png;base64,MODEL'' (Some ''Side profile view'')"
  have start: "handlePoseSelect_begin model_state 2 =
      Await (model_state\<lparr>error := None, isLoading := True, loadingMessage := ''Changing pose...'',
                          currentPoseIndex := 2\<rparr>) ?c
        (PendingPose 0 (Some ''Side profile view'') 0)"
    by (simp add: js_defs handler_defs example_defs)
  have blocked: "gw_blocked ?c = Inl ''Request was blocked. Reason: SAFETY. ''"
    by (simp add: gw_blocked_def)
  have "currentPoseIndex model_state = 0"
    by (simp add: model_state_def)
  with failed_pose_change_is_reverted
         [where gw = gw_blocked and fmt = example_fmt, OF start blocked]
  show ?thesis by (auto simp: example_fmt_def)
qed

section \<open>Custom poses\<close>

lemma findIndex_from_Some:
  "findIndex_from n P xs = Some i \<Longrightarrow> n \<le> i \<and> i - n < length xs \<and> P (xs ! (i - n))"
proof (induction xs arbitrary: n)
  case Nil
  then show ?case by simp
next
  case (Cons x xs)
  show ?case
  proof (cases "P x")
    case True
    with Cons.prems show ?thesis by simp
  next
    case False
    with Cons.prems have "findIndex_from (Suc n) P xs = Some i" by simp
    from Cons.IH[OF this] show ?thesis by (auto simp: Suc_diff_le)
  qed
qed

lemma findIndex_Some: "findIndex P xs = Some i \<Longrightarrow> i < length xs \<and> P (xs ! i)"
  using findIndex_from_Some[of 0 P xs i] by (simp add: findIndex_def)

lemma findIndex_from_first:
  "findIndex_from n P xs = Some i \<Longrightarrow> \<forall>j<i - n. \<not> P (xs ! j)"
proof (induction xs arbitrary: n)
  case Nil
  then show ?case by simp
next
  case (Cons x xs)
  show ?case
  proof (cases "P x")
    case True
    with Cons.prems show ?thesis by simp
  next
    case False
    with Cons.prems have rest: "findIndex_from (Suc n) P xs = Some i" by simp
    from findIndex_from_Some[OF rest] have "Suc n \<le> i" by simp
    then have "i - n = Suc (i - Suc n)" by simp
    with Cons.IH[OF rest] False show ?thesis
      by (auto simp: nth_Cons split: nat.splits)
  qed
qed

lemma findIndex_first: "findIndex P xs = Some i \<Longrightarrow> \<forall>j<i. \<not> P (xs ! j)"
  using findIndex_from_first[of 0 P xs i] by (simp add: findIndex_def)

lemma handlePoseSelect_begin_keeps_catalog:
  "handlePoseSelect_begin s i = Done t \<Longrightarrow> poseInstructions t = poseInstructions s"
  "handlePoseSelect_begin s i = Await s' c p \<Longrightarrow>
     poseInstructions s' = poseInstructions s \<and> (\<exists>k instr prev. p = PendingPose k instr prev)"
  by (auto simp: handlePoseSelect_begin_def Let_def split: if_splits option.splits)

lemma pending_pose_keeps_catalog:
  "resume fmt (PendingPose k instr prev) r u = Some t \<Longrightarrow> poseInstructions t = poseInstructions u"
  by (auto simp: resume_def handlePoseSelect_settle_def finish_def split: sum.splits option.splits)

lemma handlePoseSelect_keeps_catalog:
  "handlePoseSelect fmt gw s i = Settled t cs \<Longrightarrow> poseInstructions t = poseInstructions s"
proof (cases "handlePoseSelect_begin s i")
  case (Done u)
  assume "handlePoseSelect fmt gw s i = Settled t cs"
  with Done handlePoseSelect_begin_keeps_catalog(1)[OF Done] show ?thesis
    by (simp add: handlePoseSelect_def run_def)
next
  case Threw
  assume "handlePoseSelect fmt gw s i = Settled t cs"
  with Threw show ?thesis by (simp add: handlePoseSelect_def run_def)
next
  case (Await s' c p)
  assume out: "handlePoseSelect fmt gw s i = Settled t cs"
  from handlePoseSelect_begin_keeps_catalog(2)[OF Await] obtain k instr prev
    where cat: "poseInstructions s' = poseInstructions s" and p: "p = PendingPose k instr prev"
    by blast
  from out Await p have "resume fmt (PendingPose k instr prev) (gw c) s' = Some t"
    by (simp add: handlePoseSelect_def run_def split: option.splits)
  from pending_pose_keeps_catalog[OF this] cat show ?thesis by simp
qed

text \<open>
  Claim C8: when the trimmed text equals a catalog entry up to case, \<open>handleCustomPoseGenerate\<close>
  does what \<open>handlePoseSelect\<close> does for the index of the first such entry, up to the request
  and through its answer, and no step of it changes the catalog. \<open>toLowerCase\<close> and \<open>trim\<close>
  are the functions of the language, whatever they do to a string; of \<open>toLowerCase\<close> only
  this is used: it maps the empty string, and no other, to the empty string. The session is
  one whose catalog holds no empty instruction and which displays an image once a model
  exists; every well-formed state is (\<open>wf_state_def\<close>, \<open>wf_displays_an_image\<close>).
\<close>

theorem known_custom_pose_is_a_pose_selection:
  assumes lower: "\<forall>p. toLowerCase js p = [] \<longleftrightarrow> p = []"
    and found: "findIndex (\<lambda>p. toLowerCase js p = toLowerCase js (trim js posePrompt))
                  (poseInstructions s) = Some i"
    and no_blank: "[] \<notin> set (poseInstructions s)"
    and shown: "length (outfitHistory s) = 0 \<or> truthy (displayImageUrl s)"
  shows "handleCustomPoseGenerate_begin js s posePrompt = handlePoseSelect_begin s i \<and>
         handleCustomPoseGenerate fmt js gw s posePrompt = handlePoseSelect fmt gw s i \<and>
         i < length (poseInstructions s) \<and>
         toLowerCase js (poseInstructions s ! i) = toLowerCase js (trim js posePrompt) \<and>
         (\<forall>j<i. toLowerCase js (poseInstructions s ! j) \<noteq> toLowerCase js (trim js posePrompt)) \<and>
         (\<forall>t. handleCustomPoseGenerate_begin js s posePrompt = Done t \<longrightarrow>
            poseInstructions t = poseInstructions s) \<and>
         (\<forall>s' c p. handleCustomPoseGenerate_begin js s posePrompt = Await s' c p \<longrightarrow>
            poseInstructions s' = poseInstructions s \<and>
            (\<forall>r u t. resume fmt p r u = Some t \<longrightarrow> poseInstructions t = poseInstructions u)) \<and>
         (\<forall>t cs. handleCustomPoseGenerate fmt js gw s posePrompt = Settled t cs \<longrightarrow>
            poseInstructions t = poseInstructions s \<and>
            length (poseInstructions t) = length (poseInstructions s))"
proof -
  from findIndex_Some[OF found]
  have i: "i < length (poseInstructions s)"
    and same: "toLowerCase js (poseInstructions s ! i) = toLowerCase js (trim js posePrompt)"
    by simp_all
  from findIndex_first[OF found]
  have first: "\<forall>j<i. toLowerCase js (poseInstructions s ! j) \<noteq>
                     toLowerCase js (trim js posePrompt)"
    by simp
  from i no_blank have "poseInstructions s ! i \<noteq> []"
    by (metis nth_mem)
  with lower have "toLowerCase js (poseInstructions s ! i) \<noteq> []" by simp
  with same lower have nonblank: "trim js posePrompt \<noteq> []"
    by metis
  have start: "handleCustomPoseGenerate_begin js s posePrompt = handlePoseSelect_begin s i"
  proof (cases "isLoading s \<or> length (outfitHistory s) = 0")
    case True
    then have "handlePoseSelect_begin s i = Done s"
      by (auto simp: handlePoseSelect_begin_def)
    moreover have "handleCustomPoseGenerate_begin js s posePrompt = Done s"
      using True found nonblank \<open>handlePoseSelect_begin s i = Done s\<close>
      by (auto simp: handleCustomPoseGenerate_begin_def Let_def)
    ultimately show ?thesis by simp
  next
    case False
    with shown have "truthy (displayImageUrl s)" by simp
    with False nonblank found show ?thesis
      by (simp add: handleCustomPoseGenerate_begin_def Let_def)
  qed
  then have eq: "handleCustomPoseGenerate fmt js gw s posePrompt = handlePoseSelect fmt gw s i"
    by (simp add: handleCustomPoseGenerate_def handlePoseSelect_def)
  have returned: "\<forall>t. handleCustomPoseGenerate_begin js s posePrompt = Done t \<longrightarrow>
            poseInstructions t = poseInstructions s"
    unfolding start using handlePoseSelect_begin_keeps_catalog(1) by blast
  have await: "\<forall>s' c p. handleCustomPoseGenerate_begin js s posePrompt = Await s' c p \<longrightarrow>
            poseInstructions s' = poseInstructions s \<and>
            (\<forall>r u t. resume fmt p r u = Some t \<longrightarrow> poseInstructions t = poseInstructions u)"
    unfolding start
    using handlePoseSelect_begin_keeps_catalog(2) pending_pose_keeps_catalog by blast
  have settled: "\<forall>t cs. handleCustomPoseGenerate fmt js gw s posePrompt = Settled t cs \<longrightarrow>
            poseInstructions t = poseInstructions s \<and>
            length (poseInstructions t) = length (poseInstructions s)"
    unfolding eq using handlePoseSelect_keeps_catalog by metis
  from start eq i same first returned await settled show ?thesis by blast
qed

theorem known_custom_pose_is_a_pose_selection_witness:
  "(\<forall>p. toLowerCase ascii_methods p = [] \<longleftrightarrow> p = []) \<and>
   findIndex (\<lambda>p. toLowerCase ascii_methods p =
                  toLowerCase ascii_methods (trim ascii_methods '' side PROFILE VIEW  ''))
     (poseInstructions model_state) = Some 2 \<and>
   handleCustomPoseGenerate example_fmt ascii_methods gw_ok model_state '' side PROFILE VIEW  '' =
     handlePoseSelect example_fmt gw_ok model_state 2 \<and>
   (\<exists>t. handleCustomPoseGenerate example_fmt ascii_methods gw_ok model_state
           '' side PROFILE VIEW  '' =
           Settled t [GeneratePoseVariation ''data:image/png;base64,MODEL''
                        (Some ''Side profile view'')] \<and>
         poseInstructions t = DEFAULT_POSE_INSTRUCTIONS \<and> currentPoseIndex t = 2)"
proof -
  have lower: "\<forall>p. toLowerCase ascii_methods p = [] \<longleftrightarrow> p = []"
    by (simp add: ascii_methods_def)
  have found: "findIndex (\<lambda>p. toLowerCase ascii_methods p =
                  toLowerCase ascii_methods (trim ascii_methods '' side PROFILE VIEW  ''))
     (poseInstructions model_state) = Some 2"
    by (simp add: js_defs example_defs)
  have no_blank: "[] \<notin> set (poseInstructions model_state)"
    by (simp add: example_defs)
  have shown: "length (outfitHistory model_state) = 0 \<or> truthy (displayImageUrl model_state)"
    by (simp add: js_defs displayImageUrl_def example_defs)
  have pose: "handlePoseSelect example_fmt gw_ok model_state 2 =
      Settled (model_state\<lparr>currentPoseIndex := 2, outfitHistory :=
         [\<lparr>garment = None,
           poseImages = [(''Full frontal view, hands on hips'', ''data:image/png;base64,MODEL''),
                         (''Side profile view'', ''data:image/png;base64,MODEL+pose'')]\<rparr>]\<rparr>)
        [GeneratePoseVariation ''data:image/png;base64,MODEL'' (Some ''Side profile view'')]"
    by (simp add: js_defs handler_defs example_defs)
  from known_custom_pose_is_a_pose_selection
         [where js = ascii_methods and fmt = example_fmt and gw = gw_ok,
          OF lower found no_blank shown]
  show ?thesis using lower found pose by (simp add: model_state_def)
qed

section \<open>Forward pose navigation\<close>

lemma indexOf_from_first:
  "y \<notin> set xs \<Longrightarrow> indexOf_from n (xs @ y # ys) y = Some (n + length xs)"
  by (induction xs arbitrary: n) auto

lemma indexOf_from_None: "y \<notin> set xs \<Longrightarrow> indexOf_from n xs y = None"
  by (induction xs arbitrary: n) auto

lemma indexOf_from_Some:
  "y \<in> set xs \<Longrightarrow>
   \<exists>j. indexOf_from n xs y = Some (n + j) \<and> j < length xs \<and> xs ! j = y \<and> (\<forall>j'<j. xs ! j' \<noteq> y)"
proof (induction xs arbitrary: n)
  case Nil
  then show ?case by simp
next
  case (Cons x xs)
  show ?case
  proof (cases "x = y")
    case True
    then show ?thesis by (intro exI[of _ 0]) simp
  next
    case False
    with Cons.prems have "y \<in> set xs" by simp
    from Cons.IH[OF this, of "Suc n"] obtain j where
      j: "indexOf_from (Suc n) xs y = Some (Suc n + j)" "j < length xs" "xs ! j = y"
         "\<forall>j'<j. xs ! j' \<noteq> y" by blast
    have "\<forall>j'<Suc j. (x # xs) ! j' \<noteq> y"
      using False j(4) by (auto simp: nth_Cons split: nat.splits)
    with False j show ?thesis by (intro exI[of _ "Suc j"]) simp
  qed
qed

lemma nextInMasterList_nonempty:
  "poseInstructions' \<noteq> [] \<Longrightarrow>
   nextInMasterList poseInstructions' currentPoseIndex' =
     SelectPose ((currentPoseIndex' + 1) mod length poseInstructions')"
  by (simp add: nextInMasterList_def js_mod_def)

text \<open>
  Claim C9 takes the available subsequence in catalog order. \<open>availablePoseKeys\<close> is
  \<open>Object.keys\<close> of the layer's \<open>poseImages\<close>, the order in which the poses were rendered. In
  \<open>three_poses_state\<close> the third catalog entry was rendered before the second and is the
  current one: in catalog order it is the last available entry, so the claim's target is
  catalog index 3, while \<open>handleNextPose\<close> goes on to the key after it, catalog index 1.
  While a mutation is in flight \<open>handleNextPose\<close> does not navigate at all.
\<close>

theorem catalog_order_is_not_the_navigation_order:
  "availablePoseKeys three_poses_state =
     [''Full frontal view, hands on hips'', ''Side profile view'', ''Slightly turned, 3/4 view''] \<and>
   availableInCatalogOrder (poseInstructions three_poses_state)
       (availablePoseKeys three_poses_state) =
     [''Full frontal view, hands on hips'', ''Slightly turned, 3/4 view'', ''Side profile view''] \<and>
   at (poseInstructions three_poses_state) (currentPoseIndex three_poses_state) =
     Some ''Side profile view'' \<and>
   cycleNext_spec (poseInstructions three_poses_state) (currentPoseIndex three_poses_state)
       (availablePoseKeys three_poses_state) = SelectPose 3 \<and>
   handleNextPose (isLoading three_poses_state) (poseInstructions three_poses_state)
       (currentPoseIndex three_poses_state) (availablePoseKeys three_poses_state) = SelectPose 1 \<and>
   handleNextPose True (poseInstructions three_poses_state)
       (currentPoseIndex three_poses_state) (availablePoseKeys three_poses_state) = NoSelect"
  by (simp add: three_poses_state_def availablePoseKeys_def availableInCatalogOrder_def
      cycleNext_spec_def handleNextPose_def nextInMasterList_def DEFAULT_POSE_INSTRUCTIONS_def
      js_defs Let_def)

text \<open>
  Claim C9 as amended: the available subsequence is the list of keys of the active layer's
  \<open>poseImages\<close> as \<open>Object.keys\<close> gives it (no key twice). While no mutation is in flight:
  if the current instruction is in that list and another key follows it, the target is the
  first catalog index of that next key (and there is no navigation when the catalog does not
  hold it); if the current instruction is the last key, or not a key, or the pose index is
  outside the catalog, the target is \<open>(currentPoseIndex + 1) mod catalogLength\<close> for a
  non-empty catalog.
\<close>

theorem next_pose_follows_the_key_order:
  assumes keys: "distinct availablePoseKeys'"
  shows
    "(currentPoseIndex' < length poseInstructions' \<and>
      availablePoseKeys' = before @ poseInstructions' ! currentPoseIndex' # nxt # after \<longrightarrow>
        (nxt \<in> set poseInstructions' \<longrightarrow>
           (\<exists>j. handleNextPose False poseInstructions' currentPoseIndex' availablePoseKeys' =
                  SelectPose j \<and>
                j < length poseInstructions' \<and> poseInstructions' ! j = nxt \<and>
                (\<forall>j'<j. poseInstructions' ! j' \<noteq> nxt))) \<and>
        (nxt \<notin> set poseInstructions' \<longrightarrow>
           handleNextPose False poseInstructions' currentPoseIndex' availablePoseKeys' = NoSelect)) \<and>
     (poseInstructions' \<noteq> [] \<and>
      (length poseInstructions' \<le> currentPoseIndex' \<or>
       poseInstructions' ! currentPoseIndex' \<notin> set availablePoseKeys' \<or>
       (availablePoseKeys' \<noteq> [] \<and>
        last availablePoseKeys' = poseInstructions' ! currentPoseIndex')) \<longrightarrow>
        handleNextPose False poseInstructions' currentPoseIndex' availablePoseKeys' =
          SelectPose ((currentPoseIndex' + 1) mod length poseInstructions'))"
proof (intro conjI impI)
  assume a: "currentPoseIndex' < length poseInstructions' \<and>
      availablePoseKeys' = before @ poseInstructions' ! currentPoseIndex' # nxt # after"
  let ?p = "poseInstructions' ! currentPoseIndex'"
  from a keys have nb: "?p \<notin> set before" by auto
  from a have cur: "at poseInstructions' currentPoseIndex' = Some ?p" by (simp add: at_def)
  from a indexOf_from_first[OF nb, of 0 "nxt # after"]
  have idx: "indexOf availablePoseKeys' (Some ?p) = Some (length before)"
    by (simp add: indexOf_def)
  from a have nxt: "at availablePoseKeys' (Suc (length before)) = Some nxt"
    by (simp add: at_def nth_append)
  from a have len: "length before + 1 < length availablePoseKeys'" by simp
  have run: "handleNextPose False poseInstructions' currentPoseIndex' availablePoseKeys' =
      (case indexOf poseInstructions' (Some nxt) of
         None \<Rightarrow> NoSelect | Some j \<Rightarrow> SelectPose j)"
    using len by (auto simp: handleNextPose_def cur idx nxt Let_def)
  {
    assume "nxt \<in> set poseInstructions'"
    from indexOf_from_Some[OF this, of 0] obtain j where
      "indexOf_from 0 poseInstructions' nxt = Some j" "j < length poseInstructions'"
      "poseInstructions' ! j = nxt" "\<forall>j'<j. poseInstructions' ! j' \<noteq> nxt" by auto
    then show "\<exists>j. handleNextPose False poseInstructions' currentPoseIndex' availablePoseKeys' =
                  SelectPose j \<and>
                j < length poseInstructions' \<and> poseInstructions' ! j = nxt \<and>
                (\<forall>j'<j. poseInstructions' ! j' \<noteq> nxt)"
      by (auto simp: run indexOf_def)
  }
  {
    assume "nxt \<notin> set poseInstructions'"
    from indexOf_from_None[OF this, of 0]
    show "handleNextPose False poseInstructions' currentPoseIndex' availablePoseKeys' = NoSelect"
      by (simp add: run indexOf_def)
  }
next
  assume b: "poseInstructions' \<noteq> [] \<and>
      (length poseInstructions' \<le> currentPoseIndex' \<or>
       poseInstructions' ! currentPoseIndex' \<notin> set availablePoseKeys' \<or>
       (availablePoseKeys' \<noteq> [] \<and>
        last availablePoseKeys' = poseInstructions' ! currentPoseIndex'))"
  let ?p = "poseInstructions' ! currentPoseIndex'"
  note master = nextInMasterList_nonempty[of poseInstructions' currentPoseIndex']
  show "handleNextPose False poseInstructions' currentPoseIndex' availablePoseKeys' =
          SelectPose ((currentPoseIndex' + 1) mod length poseInstructions')"
  proof (cases "currentPoseIndex' < length poseInstructions'")
    case False
    then have "at poseInstructions' currentPoseIndex' = None" by (simp add: at_def)
    with b master show ?thesis by (simp add: handleNextPose_def indexOf_def)
  next
    case True
    then have cur: "at poseInstructions' currentPoseIndex' = Some ?p" by (simp add: at_def)
    show ?thesis
    proof (cases "?p \<in> set availablePoseKeys'")
      case False
      from indexOf_from_None[OF this, of 0] b master show ?thesis
        by (simp add: handleNextPose_def cur indexOf_def)
    next
      case in_keys: True
      with b True have ne: "availablePoseKeys' \<noteq> []" and l: "last availablePoseKeys' = ?p"
        by auto
      from ne l have split: "availablePoseKeys' = butlast availablePoseKeys' @ [?p]"
        by (metis append_butlast_last_id)
      with keys have "?p \<notin> set (butlast availablePoseKeys')"
        by (metis distinct_append distinct.simps(2) disjoint_iff list.set_intros(1))
      from indexOf_from_first[OF this, of 0 "[]"] split
      have "indexOf availablePoseKeys' (Some ?p) = Some (length availablePoseKeys' - 1)"
        by (simp add: indexOf_def)
      with ne b master show ?thesis
        by (simp add: handleNextPose_def cur Let_def)
    qed
  qed
qed

theorem next_pose_follows_the_key_order_witness:
  "distinct (availablePoseKeys three_poses_state) \<and>
   handleNextPose False (poseInstructions three_poses_state) 2
       (availablePoseKeys three_poses_state) = SelectPose 1 \<and>
   handleNextPose False (poseInstructions three_poses_state) 1
       (availablePoseKeys three_poses_state) = SelectPose 2 \<and>
   handleNextPose False (poseInstructions three_poses_state) 4
       (availablePoseKeys three_poses_state) = SelectPose 5"
proof -
  let ?keys = "[''Full frontal view, hands on hips'', ''Side profile view'',
                ''Slightly turned, 3/4 view'']"
  have keys: "availablePoseKeys three_poses_state = ?keys"
    by (simp add: three_poses_state_def availablePoseKeys_def js_defs)
  have cat: "poseInstructions three_poses_state = DEFAULT_POSE_INSTRUCTIONS"
    by (simp add: three_poses_state_def)
  have d: "distinct (availablePoseKeys three_poses_state)"
    by (simp add: keys)
  have mid: "2 < length (poseInstructions three_poses_state) \<and>
      availablePoseKeys three_poses_state =
        [''Full frontal view, hands on hips''] @ poseInstructions three_poses_state ! 2 #
          ''Slightly turned, 3/4 view'' # []"
    by (simp add: keys cat DEFAULT_POSE_INSTRUCTIONS_def)
  have known: "''Slightly turned, 3/4 view'' \<in> set (poseInstructions three_poses_state)"
    by (simp add: cat DEFAULT_POSE_INSTRUCTIONS_def)
  have facts: "\<And>j. j < length (poseInstructions three_poses_state) \<Longrightarrow>
      poseInstructions three_poses_state ! j = ''Slightly turned, 3/4 view'' \<Longrightarrow> j = 1"
    by (simp add: cat DEFAULT_POSE_INSTRUCTIONS_def nth_Cons split: nat.splits)
  have last: "poseInstructions three_poses_state \<noteq> [] \<and>
      (length (poseInstructions three_poses_state) \<le> 1 \<or>
       poseInstructions three_poses_state ! 1 \<notin> set (availablePoseKeys three_poses_state) \<or>
       (availablePoseKeys three_poses_state \<noteq> [] \<and>
        last (availablePoseKeys three_poses_state) = poseInstructions three_poses_state ! 1))"
    by (simp add: keys cat DEFAULT_POSE_INSTRUCTIONS_def)
  have absent: "poseInstructions three_poses_state \<noteq> [] \<and>
      (length (poseInstructions three_poses_state) \<le> 4 \<or>
       poseInstructions three_poses_state ! 4 \<notin> set (availablePoseKeys three_poses_state) \<or>
       (availablePoseKeys three_poses_state \<noteq> [] \<and>
        last (availablePoseKeys three_poses_state) = poseInstructions three_poses_state ! 4))"
    by (simp add: keys cat DEFAULT_POSE_INSTRUCTIONS_def)
  have len: "length (poseInstructions three_poses_state) = 6"
    by (simp add: cat DEFAULT_POSE_INSTRUCTIONS_def)
  from next_pose_follows_the_key_order
         [OF d, of 2 "poseInstructions three_poses_state" "[''Full frontal view, hands on hips'']"
            "''Slightly turned, 3/4 view''" "[]"] mid known
  obtain j where "handleNextPose False (poseInstructions three_poses_state) 2
       (availablePoseKeys three_poses_state) = SelectPose j"
    "j < length (poseInstructions three_poses_state)"
    "poseInstructions three_poses_state ! j = ''Slightly turned, 3/4 view''"
    by blast
  with facts have one: "handleNextPose False (poseInstructions three_poses_state) 2
       (availablePoseKeys three_poses_state) = SelectPose 1"
    by blast
  from next_pose_follows_the_key_order
         [OF d, of 1 "poseInstructions three_poses_state" "[]" "[]" "[]"] last
  have two: "handleNextPose False (poseInstructions three_poses_state) 1
       (availablePoseKeys three_poses_state) = SelectPose 2"
    by (simp add: len)
  from next_pose_follows_the_key_order
         [OF d, of 4 "poseInstructions three_poses_state" "[]" "[]" "[]"] absent
  have three: "handleNextPose False (poseInstructions three_poses_state) 4
       (availablePoseKeys three_poses_state) = SelectPose 5"
    by (simp add: len)
  from d one two three show ?thesis by simp
qed

section \<open>The error slot\<close>









section \<open>Uninterrupted sessions are well-formed\<close>

text \<open>
  The gateway functions return what \<open>handleApiResponse\<close> returns, a data URL, so an image
  that arrives is never the empty string.
\<close>

lemma dataUrl_not_empty: "dataUrl mimeType data \<noteq> []"
  by (simp add: dataUrl_def)

lemma set_replace_prop:
  "set (replace_prop ps k v) \<subseteq> insert (k, v) (set ps)"
  by (induction ps) (auto split: if_splits)

lemma set_insert_index_prop:
  "set (insert_index_prop n ps k v) = insert (k, v) (set ps)"
  by (induction ps) (auto split: option.splits if_splits)

lemma keys_replace_prop: "map fst (replace_prop ps k v) = map fst ps"
  by (induction ps) auto

lemma distinct_insert_index_prop:
  "k \<notin> set (map fst ps) \<Longrightarrow> distinct (map fst ps) \<Longrightarrow>
   distinct (map fst (insert_index_prop n ps k v))"
proof (induction ps)
  case Nil
  then show ?case by simp
next
  case (Cons p ps)
  obtain k' v' where p: "p = (k', v')" by (cases p)
  from Cons.prems have nk: "k \<noteq> k'" and nin: "k \<notin> set (map fst ps)"
    and d: "distinct (map fst ps)" and kn: "k' \<notin> set (map fst ps)"
    by (auto simp: p)
  have "set (map fst (insert_index_prop n ps k v)) = insert k (set (map fst ps))"
    by (simp add: set_insert_index_prop)
  with nk kn have "k' \<notin> set (map fst (insert_index_prop n ps k v))" by simp
  with Cons.IH[OF nin d] Cons.prems show ?case
    by (auto simp: p split: option.splits)
qed

lemma distinct_object_keys_set_prop:
  "distinct (object_keys ps) \<Longrightarrow> distinct (object_keys (set_prop ps k v))"
  by (auto simp: object_keys_def set_prop_def keys_replace_prop distinct_insert_index_prop
      split: option.splits)

lemma set_set_prop: "set (set_prop ps k v) \<subseteq> insert (k, v) (set ps)"
  using set_replace_prop[of ps k v]
  by (auto simp: set_prop_def set_insert_index_prop split: option.splits)

lemma replace_prop_Nil_iff: "replace_prop ps k v = [] \<longleftrightarrow> ps = []"
  by (cases ps) (auto split: if_splits)

lemma insert_index_prop_not_Nil: "insert_index_prop n ps k v \<noteq> []"
  by (cases ps) (auto split: option.splits if_splits)

lemma set_prop_not_Nil: "set_prop ps k v \<noteq> []"
  by (auto simp: set_prop_def object_keys_def replace_prop_Nil_iff insert_index_prop_not_Nil
      split: option.splits)

lemma wf_layer_set_prop:
  assumes "wf_layer l" and "v \<noteq> []"
  shows "wf_layer (l\<lparr>poseImages := set_prop (poseImages l) k v\<rparr>)"
proof -
  have "set (object_values (set_prop (poseImages l) k v)) \<subseteq>
      insert v (set (object_values (poseImages l)))"
    using set_set_prop[of "poseImages l" k v] by (auto simp: object_values_def)
  with assms show ?thesis
    by (auto simp: wf_layer_def set_prop_not_Nil distinct_object_keys_set_prop)
qed

lemma wf_layer_new: "v \<noteq> [] \<Longrightarrow> wf_layer \<lparr>garment = g, poseImages = set_prop [] k v\<rparr>"
  by (simp add: wf_layer_def set_prop_Nil object_keys_def object_values_def)

lemma list_all_wf_update:
  "list_all wf_layer h \<Longrightarrow> wf_layer l \<Longrightarrow> list_all wf_layer (h[k := l])"
  by (auto simp: list_all_iff dest: set_update_subset_insert[THEN subsetD])

lemma list_all_wf_take: "list_all wf_layer h \<Longrightarrow> list_all wf_layer (take n h)"
  by (auto simp: list_all_iff dest: in_set_takeD)

lemma wf_setPoseImage:
  assumes "list_all wf_layer h" and "img \<noteq> []" and "setPoseImage k key img h = Some h'"
  shows "list_all wf_layer h' \<and> length h' = length h"
proof -
  from assms(3) obtain l where l: "at h k = Some l"
    and h': "h' = h[k := l\<lparr>poseImages := set_prop (poseImages l) key img\<rparr>]"
    by (auto simp: setPoseImage_def split: option.splits)
  from l assms(1) have "wf_layer l"
    by (auto simp: at_def list_all_iff split: if_splits)
  from wf_layer_set_prop[OF this assms(2)] assms(1) show ?thesis
    by (simp add: h' list_all_wf_update)
qed

lemma wf_setBackgroundImage:
  assumes "list_all wf_layer h" and "img \<noteq> []"
  shows "list_all wf_layer (setBackgroundImage k instr img h)"
proof (cases "at h k")
  case None
  with assms show ?thesis by (simp add: setBackgroundImage_def deepCopy_id)
next
  case (Some l)
  with assms(1) have "wf_layer l"
    by (auto simp: at_def list_all_iff split: if_splits)
  from wf_layer_set_prop[OF this assms(2)] assms(1) Some show ?thesis
    by (simp add: setBackgroundImage_def deepCopy_id list_all_wf_update)
qed

lemma wf_initial_state: "wf_state initial_state"
  by (simp add: wf_state_def initial_state_def DEFAULT_POSE_INSTRUCTIONS_def truthy_def)

lemma wf_example_states:
  "wf_state model_state" "wf_state two_garments_state" "wf_state busy_state"
  "wf_state three_poses_state"
  by (simp_all add: wf_state_def wf_layer_def example_defs js_defs)

text \<open>
  Each handler keeps the invariant, whatever the gateway answers, as long as the images it
  returns are not empty.
\<close>

lemma wf_handleGarmentSelect:
  assumes wf: "wf_state s" and gw: "\<forall>c img. gw c = Inr img \<longrightarrow> img \<noteq> []"
    and out: "handleGarmentSelect fmt gw s garmentFile garmentInfo = Settled t cs"
  shows "wf_state t"
proof (cases "handleGarmentSelect_begin s garmentFile garmentInfo")
  case (Done u)
  with out have "t = u" by (simp add: handleGarmentSelect_def run_def)
  with Done wf show ?thesis
    by (auto simp: handleGarmentSelect_begin_def wf_state_def at_def Let_def
        split: if_splits option.splits)
next
  case Threw
  with out show ?thesis by (simp add: handleGarmentSelect_def run_def)
next
  case (Await s' c p)
  then have shown: "truthy (displayImageUrl s)"
    and p: "p = PendingGarment (currentOutfitIndex s)
               (at (poseInstructions s) (currentPoseIndex s)) garmentInfo"
    and s': "s' = s\<lparr>error := None, isLoading := True,
                     loadingMessage := ''Adding '' @ name garmentInfo @ ''...''\<rparr>"
    by (auto simp: handleGarmentSelect_begin_def split: if_splits option.splits)
  from shown wf have ne: "outfitHistory s \<noteq> []" and cur: "currentOutfitIndex s < length (outfitHistory s)"
    by (auto simp: displayImageUrl_def wf_state_def split: if_splits)
  from out Await p have t: "t = handleGarmentSelect_settle fmt (currentOutfitIndex s)
        (at (poseInstructions s) (currentPoseIndex s)) garmentInfo (gw c) s'"
    by (simp add: handleGarmentSelect_def run_def resume_def)
  show ?thesis
  proof (cases "gw c")
    case (Inl err)
    with t s' wf show ?thesis
      by (simp add: handleGarmentSelect_settle_def finish_def wf_state_def)
  next
    case (Inr img)
    with gw have "img \<noteq> []" by blast
    then have "wf_layer \<lparr>garment = Some garmentInfo,
        poseImages = set_prop [] (to_key (at (poseInstructions s) (currentPoseIndex s))) img\<rparr>"
      by (rule wf_layer_new)
    with t s' wf Inr cur show ?thesis
      by (simp add: handleGarmentSelect_settle_def finish_def wf_state_def Let_def
          list_all_wf_take min_def)
  qed
qed

lemma wf_pending_pose:
  assumes wf: "wf_state s" and gw: "\<forall>c img. gw c = Inr img \<longrightarrow> img \<noteq> []"
    and res: "handlePoseSelect_settle fmt k instr prev (gw c)
                (s\<lparr>error := e, isLoading := b, loadingMessage := m, currentPoseIndex := i\<rparr>) = Some t"
  shows "wf_state t"
proof (cases "gw c")
  case (Inl err)
  with res wf show ?thesis
    by (auto simp: handlePoseSelect_settle_def finish_def wf_state_def)
next
  case (Inr img)
  with gw have img: "img \<noteq> []" by blast
  from res Inr obtain h' where h': "setPoseImage k (to_key instr) img (outfitHistory s) = Some h'"
    and t: "t = finish (s\<lparr>error := e, isLoading := b, loadingMessage := m, currentPoseIndex := i,
                          outfitHistory := h'\<rparr>)"
    by (auto simp: handlePoseSelect_settle_def split: option.splits)
  from wf have "list_all wf_layer (outfitHistory s)" by (simp add: wf_state_def)
  from wf_setPoseImage[OF this img h']
  have "list_all wf_layer h'" and "(h' = []) = (outfitHistory s = [])"
    by (auto simp: length_0_conv[symmetric] simp del: length_0_conv)
  moreover from wf_setPoseImage[OF \<open>list_all wf_layer (outfitHistory s)\<close> img h']
  have "length h' = length (outfitHistory s)" by simp
  ultimately show ?thesis using wf t
    by (simp add: finish_def wf_state_def)
qed

lemma wf_handlePoseSelect:
  assumes wf: "wf_state s" and gw: "\<forall>c img. gw c = Inr img \<longrightarrow> img \<noteq> []"
    and out: "handlePoseSelect fmt gw s newIndex = Settled t cs"
  shows "wf_state t"
proof (cases "handlePoseSelect_begin s newIndex")
  case (Done u)
  with out have "t = u" by (simp add: handlePoseSelect_def run_def)
  with Done wf show ?thesis
    by (auto simp: handlePoseSelect_begin_def wf_state_def Let_def split: if_splits option.splits)
next
  case Threw
  with out show ?thesis by (simp add: handlePoseSelect_def run_def)
next
  case (Await s' c p)
  then have p: "p = PendingPose (currentOutfitIndex s) (at (poseInstructions s) newIndex)
                      (currentPoseIndex s)"
    and s': "s' = s\<lparr>error := None, isLoading := True, loadingMessage := ''Changing pose...'',
                     currentPoseIndex := newIndex\<rparr>"
    by (auto simp: handlePoseSelect_begin_def Let_def split: if_splits option.splits)
  from out Await p s' have "handlePoseSelect_settle fmt (currentOutfitIndex s)
      (at (poseInstructions s) newIndex) (currentPoseIndex s) (gw c)
      (s\<lparr>error := None, isLoading := True, loadingMessage := ''Changing pose...'',
         currentPoseIndex := newIndex\<rparr>) = Some t"
    by (simp add: handlePoseSelect_def run_def resume_def split: option.splits)
  from wf_pending_pose[OF wf gw this] show ?thesis .
qed

lemma wf_handleCustomPoseGenerate:
  assumes wf: "wf_state s" and gw: "\<forall>c img. gw c = Inr img \<longrightarrow> img \<noteq> []"
    and out: "handleCustomPoseGenerate fmt js gw s posePrompt = Settled t cs"
  shows "wf_state t"
proof (cases "findIndex (\<lambda>p. toLowerCase js p = toLowerCase js (trim js posePrompt))
          (poseInstructions s)")
  case (Some i)
  have "handleCustomPoseGenerate_begin js s posePrompt = Done s \<or>
        handleCustomPoseGenerate_begin js s posePrompt = handlePoseSelect_begin s i"
    using Some by (simp add: handleCustomPoseGenerate_begin_def Let_def)
  then show ?thesis
  proof
    assume "handleCustomPoseGenerate_begin js s posePrompt = Done s"
    with out wf show ?thesis by (simp add: handleCustomPoseGenerate_def run_def)
  next
    assume "handleCustomPoseGenerate_begin js s posePrompt = handlePoseSelect_begin s i"
    with out have "handlePoseSelect fmt gw s i = Settled t cs"
      by (simp add: handleCustomPoseGenerate_def handlePoseSelect_def)
    from wf_handlePoseSelect[OF wf gw this] show ?thesis .
  qed
next
  case None
  show ?thesis
  proof (cases "handleCustomPoseGenerate_begin js s posePrompt")
    case (Done u)
    with out have "t = u" by (simp add: handleCustomPoseGenerate_def run_def)
    with Done None wf show ?thesis
      by (auto simp: handleCustomPoseGenerate_begin_def Let_def split: if_splits option.splits)
  next
    case Threw
    with out show ?thesis by (simp add: handleCustomPoseGenerate_def run_def)
  next
    case (Await s' c p)
    with None have nonblank: "trim js posePrompt \<noteq> []"
      and p: "p = PendingCustomPose (currentOutfitIndex s) (trim js posePrompt) (currentPoseIndex s)"
      and s': "s' = s\<lparr>error := None, isLoading := True,
                       loadingMessage := ''Creating custom pose...'',
                       poseInstructions := poseInstructions s @ [trim js posePrompt],
                       currentPoseIndex := length (poseInstructions s)\<rparr>"
      by (auto simp: handleCustomPoseGenerate_begin_def Let_def split: if_splits option.splits)
    from out Await p have res: "handleCustomPoseGenerate_settle fmt (currentOutfitIndex s)
        (trim js posePrompt) (currentPoseIndex s) (gw c) s' = Some t"
      by (simp add: handleCustomPoseGenerate_def run_def resume_def split: option.splits)
    show ?thesis
    proof (cases "gw c")
      case (Inl err)
      with res s' wf show ?thesis
        by (auto simp: handleCustomPoseGenerate_settle_def finish_def wf_state_def)
    next
      case (Inr img)
      with gw have img: "img \<noteq> []" by blast
      from res Inr s' obtain h' where
        h': "setPoseImage (currentOutfitIndex s) (trim js posePrompt) img (outfitHistory s) = Some h'"
        and t: "t = finish (s'\<lparr>outfitHistory := h'\<rparr>)"
        by (auto simp: handleCustomPoseGenerate_settle_def split: option.splits)
      from wf have "list_all wf_layer (outfitHistory s)" by (simp add: wf_state_def)
      from wf_setPoseImage[OF this img h']
      have "list_all wf_layer h'" and len: "length h' = length (outfitHistory s)" by simp_all
      from len have "(h' = []) = (outfitHistory s = [])"
        by (metis length_0_conv)
      with \<open>list_all wf_layer h'\<close> len wf t s' nonblank show ?thesis
        by (simp add: finish_def wf_state_def)
    qed
  qed
qed

lemma wf_background:
  assumes wf: "wf_state s" and gw: "\<forall>c img. gw c = Inr img \<longrightarrow> img \<noteq> []"
    and st: "st = handleBackgroundChange_begin s prompt \<or>
             st = handleBackgroundImageUpload_begin s upload"
    and out: "run fmt gw st = Settled t cs"
  shows "wf_state t"
proof (cases st)
  case (Done u)
  with st have "u = s"
    by (auto simp: handleBackgroundChange_begin_def handleBackgroundImageUpload_begin_def
        split: if_splits)
  with Done out wf show ?thesis by (simp add: run_def)
next
  case Threw
  with out show ?thesis by (simp add: run_def)
next
  case (Await s' c p)
  with st have p: "p = PendingBackground (currentOutfitIndex s)
                         (at (poseInstructions s) (currentPoseIndex s))"
    and s': "s' = s\<lparr>error := None, isLoading := True,
                     loadingMessage := ''Changing background...''\<rparr>"
    by (auto simp: handleBackgroundChange_begin_def handleBackgroundImageUpload_begin_def
        split: if_splits)
  from out Await p have t: "t = handleBackgroundChange_settle fmt (currentOutfitIndex s)
      (at (poseInstructions s) (currentPoseIndex s)) (gw c) s'"
    by (simp add: run_def resume_def)
  show ?thesis
  proof (cases "gw c")
    case (Inl err)
    with t s' wf show ?thesis
      by (simp add: handleBackgroundChange_settle_def finish_def wf_state_def)
  next
    case (Inr img)
    with gw have img: "img \<noteq> []" by blast
    from wf have "list_all wf_layer (outfitHistory s)" by (simp add: wf_state_def)
    let ?h = "setBackgroundImage (currentOutfitIndex s)
        (at (poseInstructions s) (currentPoseIndex s)) img (outfitHistory s)"
    have len: "length ?h = length (outfitHistory s)" by (rule length_setBackgroundImage)
    then have "(?h = []) = (outfitHistory s = [])"
      by (metis length_0_conv)
    with wf_setBackgroundImage[OF \<open>list_all wf_layer (outfitHistory s)\<close> img] len wf t s' Inr
    show ?thesis
      by (simp add: handleBackgroundChange_settle_def finish_def wf_state_def)
  qed
qed

lemma wf_perform:
  assumes wf: "wf_state s" and ok: "event_ok e"
    and gw: "\<forall>c img. gw c = Inr img \<longrightarrow> img \<noteq> []"
    and out: "perform fmt js gw s e = Settled t cs"
  shows "wf_state t"
proof (cases e)
  case (ModelFinalized u)
  with ok have "u \<noteq> []" by (simp add: event_ok_def)
  from wf_layer_new[OF this] ModelFinalized out wf show ?thesis
    by (auto simp: handleModelFinalized_def wf_state_def)
next
  case StartOver
  with out wf_initial_state show ?thesis
    by (auto simp: handleStartOver_def wf_state_def initial_state_def)
next
  case (GarmentSelect garmentFile garmentInfo)
  with out wf_handleGarmentSelect[OF wf gw] show ?thesis by simp
next
  case RemoveLastGarment
  with out wf show ?thesis
    by (auto simp: handleRemoveLastGarment_def wf_state_def split: if_splits)
next
  case (PoseSelect newIndex)
  with out wf_handlePoseSelect[OF wf gw] show ?thesis by simp
next
  case (CustomPoseGenerate posePrompt)
  with out wf_handleCustomPoseGenerate[OF wf gw] show ?thesis by simp
next
  case (BackgroundChange prompt)
  with out wf_background[OF wf gw, where st = "handleBackgroundChange_begin s prompt" and prompt = prompt
      and fmt = fmt and t = t and cs = cs]
  show ?thesis by (simp add: handleBackgroundChange_def)
next
  case (BackgroundImageUpload upload)
  with out wf_background[OF wf gw, where st = "handleBackgroundImageUpload_begin s upload"
      and upload = upload and fmt = fmt and t = t and cs = cs]
  show ?thesis by (simp add: handleBackgroundImageUpload_def)
qed

lemma wf_session:
  "wf_state s \<Longrightarrow> list_all event_ok es \<Longrightarrow> \<forall>c img. gw c = Inr img \<longrightarrow> img \<noteq> [] \<Longrightarrow>
   session fmt js gw s es = Some t \<Longrightarrow> wf_state t"
proof (induction es arbitrary: s)
  case Nil
  then show ?case by simp
next
  case (Cons e es)
  show ?case
  proof (cases "perform fmt js gw s e")
    case (Settled u cs)
    with Cons.prems have "wf_state u" "session fmt js gw u es = Some t"
      using wf_perform[of s e gw fmt js u cs] by simp_all
    with Cons.IH[of u] Cons.prems show ?thesis by simp
  next
    case Uncaught
    with Cons.prems Cons.IH[of s] show ?thesis by simp
  next
    case RenderError
    with Cons.prems show ?thesis by simp
  qed
qed

text \<open>
  What the invariant gives: an image is displayed once a model exists, and the keys the
  navigation receives are distinct.
\<close>

lemma wf_displays_an_image:
  assumes "wf_state s" and "outfitHistory s \<noteq> []"
  shows "truthy (displayImageUrl s)"
proof -
  from assms have cur: "currentOutfitIndex s < length (outfitHistory s)"
    by (simp add: wf_state_def)
  let ?l = "outfitHistory s ! currentOutfitIndex s"
  from assms cur have l: "wf_layer ?l" by (simp add: wf_state_def list_all_length)
  let ?k = "to_key (at (poseInstructions s) (currentPoseIndex s))"
  show ?thesis
  proof (cases "get_prop (poseImages ?l) ?k")
    case None
    from l obtain k v ps where ps: "poseImages ?l = (k, v) # ps" and "v \<noteq> []"
      by (cases "poseImages ?l") (auto simp: wf_layer_def object_values_def)
    with None assms cur show ?thesis
      by (simp add: displayImageUrl_def at_def object_values_def truthy_def)
  next
    case (Some img)
    then have "(?k, img) \<in> set (poseImages ?l)"
      by (simp add: get_prop_def map_of_SomeD)
    with l have "img \<noteq> []"
      by (force simp: wf_layer_def object_values_def)
    with Some assms cur show ?thesis
      by (simp add: displayImageUrl_def at_def truthy_def)
  qed
qed

lemma wf_distinct_keys: "wf_state s \<Longrightarrow> distinct (availablePoseKeys s)"
  by (auto simp: availablePoseKeys_def at_def wf_state_def wf_layer_def list_all_length
      split: if_splits)

text \<open>
  Runs of successful garment selections exist for every list of garments: from a fresh model,
  with a gateway that always answers, no selection is a cache hit and none is refused.
\<close>

lemma handleGarmentSelect_succeeds:
  assumes wf: "wf_state s" and ne: "outfitHistory s \<noteq> []"
    and last: "currentOutfitIndex s + 1 = length (outfitHistory s)"
    and idle: "\<not> isLoading s"
    and gw: "\<forall>c. \<exists>img. gw c = Inr img \<and> img \<noteq> []"
  shows "\<exists>t c img. handleGarmentSelect fmt gw s garmentFile garmentInfo = Settled t [c] \<and>
           gw c = Inr img \<and> \<not> isLoading t"
proof -
  from wf_displays_an_image[OF wf ne] have shown: "truthy (displayImageUrl s)" .
  let ?c = "GenerateVirtualTryOnImage (the (displayImageUrl s)) garmentFile"
  from gw obtain img where img: "gw ?c = Inr img" by blast
  from last have "at (outfitHistory s) (currentOutfitIndex s + 1) = None"
    by (simp add: at_def)
  with shown idle img
  have "handleGarmentSelect fmt gw s garmentFile garmentInfo =
      Settled (handleGarmentSelect_settle fmt (currentOutfitIndex s)
                 (at (poseInstructions s) (currentPoseIndex s)) garmentInfo (Inr img)
                 (s\<lparr>error := None, isLoading := True,
                    loadingMessage := ''Adding '' @ name garmentInfo @ ''...''\<rparr>)) [?c]"
    by (simp add: handleGarmentSelect_def handleGarmentSelect_begin_def run_def resume_def)
  moreover have "\<not> isLoading (handleGarmentSelect_settle fmt (currentOutfitIndex s)
                 (at (poseInstructions s) (currentPoseIndex s)) garmentInfo (Inr img)
                 (s\<lparr>error := None, isLoading := True,
                    loadingMessage := ''Adding '' @ name garmentInfo @ ''...''\<rparr>))"
    by (simp add: handleGarmentSelect_settle_def finish_def Let_def)
  ultimately show ?thesis using img by blast
qed

lemma applyGarments_succeeds:
  assumes gw: "\<forall>c. \<exists>img. gw c = Inr img \<and> img \<noteq> []"
  shows "wf_state s \<Longrightarrow> outfitHistory s \<noteq> [] \<Longrightarrow>
         currentOutfitIndex s + 1 = length (outfitHistory s) \<Longrightarrow> \<not> isLoading s \<Longrightarrow>
         \<exists>t. applyGarments fmt gw s garments = Some t"
proof (induction garments arbitrary: s)
  case Nil
  then show ?case by simp
next
  case (Cons g garments)
  obtain garmentFile garmentInfo where g: "g = (garmentFile, garmentInfo)" by (cases g)
  from gw have gw': "\<forall>c img. gw c = Inr img \<longrightarrow> img \<noteq> []"
    by (metis sum.inject(2))
  from handleGarmentSelect_succeeds[OF Cons.prems(1,2,3,4) gw, of fmt garmentFile garmentInfo]
  obtain u c img where
    step: "handleGarmentSelect fmt gw s garmentFile garmentInfo = Settled u [c]"
    and answer: "gw c = Inr img" and idle: "\<not> isLoading u" by blast
  from wf_handleGarmentSelect[OF Cons.prems(1) gw' step] have wf: "wf_state u" .
  from handleGarmentSelect_pushes[OF step answer Cons.prems(3)]
  have u: "currentOutfitIndex u = currentOutfitIndex s + 1"
    "length (outfitHistory u) = length (outfitHistory s) + 1" by simp_all
  with Cons.prems(3) have last: "currentOutfitIndex u + 1 = length (outfitHistory u)" by simp
  from u have ne: "outfitHistory u \<noteq> []" by auto
  from Cons.IH[OF wf ne last idle] step answer show ?case by (simp add: g)
qed

lemma fresh_model_accepts_any_run:
  assumes "wf_state s" and "\<not> isLoading s" and "u \<noteq> []"
    and "\<forall>c. \<exists>img. gw c = Inr img \<and> img \<noteq> []"
  shows "\<exists>t. applyGarments fmt gw (handleModelFinalized s u) garments = Some t"
proof -
  from assms(4) have gw': "\<forall>c img. gw c = Inr img \<longrightarrow> img \<noteq> []"
    by (metis sum.inject(2))
  have "perform fmt js gw s (ModelFinalized u) = Settled (handleModelFinalized s u) []" by simp
  from wf_perform[OF assms(1) _ gw' this] assms(3)
  have "wf_state (handleModelFinalized s u)" by (simp add: event_ok_def)
  moreover have "outfitHistory (handleModelFinalized s u) \<noteq> []"
    "currentOutfitIndex (handleModelFinalized s u) + 1 =
       length (outfitHistory (handleModelFinalized s u))"
    "\<not> isLoading (handleModelFinalized s u)"
    using assms(2) by (simp_all add: handleModelFinalized_def)
  ultimately show ?thesis using applyGarments_succeeds[OF assms(4)] by blast
qed

end
